theory Spec2Isabelle
  imports Complex_Main
begin

section \<open>G-code lines (core/gcode\_parser.py)\<close>

text \<open>
  Text is modelled as \<^typ>\<open>string\<close> over ASCII: G-code is ASCII, and
  \<open>serial_bytes\<close> encodes the normalized line as ASCII. The character classes of the
  Python built-ins used by the source are written out for the ASCII range.
\<close>

subsection \<open>Character classes of the built-ins\<close>

definition is_space :: "char \<Rightarrow> bool" where
  \<comment> \<open>what \<open>str.strip()\<close> removes: TAB, LF, VT, FF, CR, FS, GS, RS, US and the blank\<close>
  "is_space c = (let n = (of_char c :: nat) in (9 \<le> n \<and> n \<le> 13) \<or> (28 \<le> n \<and> n \<le> 32))"

definition is_digit :: "char \<Rightarrow> bool" where
  \<comment> \<open>the class \<open>\d\<close> of the regular expressions\<close>
  "is_digit c = (let n = (of_char c :: nat) in 48 \<le> n \<and> n \<le> 57)"

definition upper_char :: "char \<Rightarrow> char" where
  "upper_char c = (let n = (of_char c :: nat) in if 97 \<le> n \<and> n \<le> 122 then char_of (n - 32) else c)"

definition upper :: "string \<Rightarrow> string" where
  "upper s = map upper_char s"

definition strip :: "string \<Rightarrow> string" where
  "strip s = rev (dropWhile is_space (rev (dropWhile is_space s)))"

subsection \<open>Comment removal and normalization: \<open>GCodeCommand.stripped\<close>\<close>

text \<open>
  \<open>re.sub(r"\(.*?\)", "", raw)\<close>: scanning from the left, an opening parenthesis starts a
  match when a closing parenthesis follows it before any line feed (the dot does not
  match a line feed); the match is lazy, so it ends at the first closing parenthesis.
  \<open>find_close\<close> looks for that closing parenthesis in the text after the opening one
  and returns the text after it.
\<close>

fun find_close :: "string \<Rightarrow> string option" where
  "find_close [] = None"
| "find_close (c # cs) =
     (if c = CHR '')'' then Some cs
      else if c = CHR 0x0A then None
      else find_close cs)"

lemma find_close_shorter: "find_close cs = Some r \<Longrightarrow> length r < length cs"
  by (induction cs) (auto split: if_splits)

function remove_paren_comments :: "string \<Rightarrow> string" where
  "remove_paren_comments [] = []"
| "remove_paren_comments (c # cs) =
     (if c = CHR ''('' then
        (case find_close cs of
           Some r \<Rightarrow> remove_paren_comments r
         | None \<Rightarrow> c # remove_paren_comments cs)
      else c # remove_paren_comments cs)"
  by pat_completeness auto
termination
  by (relation "measure length") (auto dest: find_close_shorter)

definition before_semicolon :: "string \<Rightarrow> string" where
  \<comment> \<open>\<open>line.split(";")[0]\<close>\<close>
  "before_semicolon s = takeWhile (\<lambda>c. c \<noteq> CHR '';'') s"

definition stripped :: "string \<Rightarrow> string" where
  "stripped raw_line = upper (strip (before_semicolon (remove_paren_comments raw_line)))"

subsection \<open>Commands and their classification\<close>

datatype CommandStatus = QUEUED | SENT | OK | ERROR

record GCodeCommand =
  raw :: string
  status :: CommandStatus
  error_code :: "int option"

definition new_command :: "string \<Rightarrow> GCodeCommand" where
  \<comment> \<open>\<open>GCodeCommand(raw=line)\<close> with the dataclass defaults\<close>
  "new_command line = \<lparr>raw = line, status = QUEUED, error_code = None\<rparr>"

definition starts_with :: "string \<Rightarrow> string \<Rightarrow> bool" where
  \<comment> \<open>\<open>s.startswith(p)\<close>\<close>
  "starts_with p s = (take (length p) s = p)"

fun contains :: "string \<Rightarrow> string \<Rightarrow> bool" where
  \<comment> \<open>\<open>sub in s\<close>\<close>
  "contains sub [] = (sub = [])"
| "contains sub (c # cs) = (starts_with sub (c # cs) \<or> contains sub cs)"

definition is_empty :: "GCodeCommand \<Rightarrow> bool" where
  "is_empty cmd = (length (stripped (raw cmd)) = 0)"

definition is_movement :: "GCodeCommand \<Rightarrow> bool" where
  \<comment> \<open>\<open>re.match(r"^G[0-3]", s)\<close>\<close>
  "is_movement cmd =
     (case stripped (raw cmd) of
        g # d # _ \<Rightarrow> g = CHR ''G'' \<and> d \<in> set ''0123''
      | _ \<Rightarrow> False)"

definition is_laser_on :: "GCodeCommand \<Rightarrow> bool" where
  "is_laser_on cmd = (let s = stripped (raw cmd) in contains ''M3'' s \<or> contains ''M4'' s)"

definition is_laser_off :: "GCodeCommand \<Rightarrow> bool" where
  "is_laser_off cmd = contains ''M5'' (stripped (raw cmd))"

definition serial_bytes :: "GCodeCommand \<Rightarrow> string" where
  \<comment> \<open>the normalized line and a line feed, one byte per ASCII character\<close>
  "serial_bytes cmd = stripped (raw cmd) @ [CHR 0x0A]"

definition byte_count :: "GCodeCommand \<Rightarrow> nat" where
  "byte_count cmd = length (serial_bytes cmd)"

subsection \<open>Floats\<close>

text \<open>
  A Python float is an IEEE 754 double: an infinity, a NaN, or a finite value, held here as
  the rational number it stands for (the two zeros are one value). \<open>fl_round\<close> rounds a
  rational to the nearest double, ties to the even mantissa: with \<open>e\<close> the binary exponent
  of the magnitude (not below \<open>- 1022\<close>, where the subnormal numbers start) the doubles
  near it are the multiples of \<open>2 ^ (e - 52)\<close>; a magnitude that rounds to \<open>2 ^ 1024\<close> or
  lies above it becomes an infinity. \<open>halvings m\<close> counts the times \<open>m\<close> can be halved
  before it is below 2, \<open>doublings m\<close> the times it must be doubled to reach 1.
\<close>

datatype pyfloat = NegInf | Finite rat | PosInf | NaN

definition pow2 :: "int \<Rightarrow> rat" where
  "pow2 k = (if 0 \<le> k then 2 ^ nat k else 1 / 2 ^ nat (- k))"

lemma floor_half_less: "1 \<le> x \<Longrightarrow> \<lfloor>x / 2\<rfloor> < \<lfloor>x\<rfloor>" for x :: rat
proof -
  assume x: "1 \<le> x"
  then have 1: "1 \<le> \<lfloor>x\<rfloor>" by simp
  have "x < of_int \<lfloor>x\<rfloor> + 1" by linarith
  then have "x / 2 < of_int \<lfloor>x\<rfloor>" using 1 by linarith
  then show ?thesis by (simp add: floor_less_iff)
qed

function halvings :: "rat \<Rightarrow> nat" where
  "halvings m = (if m < 2 then 0 else Suc (halvings (m / 2)))"
  by pat_completeness auto
termination
proof (relation "measure (\<lambda>m. nat \<lfloor>m\<rfloor>)")
  show "wf (measure (\<lambda>m :: rat. nat \<lfloor>m\<rfloor>))" by simp
next
  fix m :: rat
  assume "\<not> m < 2"
  then have m: "1 \<le> m" by simp
  then have "1 \<le> \<lfloor>m\<rfloor>" by simp
  with floor_half_less [OF m] show "(m / 2, m) \<in> measure (\<lambda>m. nat \<lfloor>m\<rfloor>)" by simp
qed

function doublings :: "rat \<Rightarrow> nat" where
  "doublings m = (if m \<le> 0 \<or> 1 \<le> m then 0 else Suc (doublings (2 * m)))"
  by pat_completeness auto
termination
proof (relation "measure (\<lambda>m. nat \<lfloor>1 / m\<rfloor>)")
  show "wf (measure (\<lambda>m :: rat. nat \<lfloor>1 / m\<rfloor>))" by simp
next
  fix m :: rat
  assume "\<not> (m \<le> 0 \<or> 1 \<le> m)"
  then have x: "1 \<le> 1 / m" by (simp add: le_divide_eq)
  then have "1 \<le> \<lfloor>1 / m\<rfloor>" by simp
  moreover from floor_half_less [OF x] have "\<lfloor>1 / (2 * m)\<rfloor> < \<lfloor>1 / m\<rfloor>"
    by (simp add: field_simps)
  ultimately show "(2 * m, m) \<in> measure (\<lambda>m. nat \<lfloor>1 / m\<rfloor>)"
    by simp
qed

definition binary_exponent :: "rat \<Rightarrow> int" where
  "binary_exponent m = (if 1 \<le> m then int (halvings m) else - int (doublings m))"

definition round_half_even :: "rat \<Rightarrow> int" where
  "round_half_even x =
     (let f = \<lfloor>x\<rfloor>; d = x - of_int f in
      if d < 1 / 2 then f
      else if 1 / 2 < d then f + 1
      else if even f then f else f + 1)"

definition fl_round :: "rat \<Rightarrow> pyfloat" where
  "fl_round v =
     (let m = \<bar>v\<bar>;
          e = max (binary_exponent m) (- 1022)
      in if 1024 \<le> e then (if v < 0 then NegInf else PosInf)
         else (let q = pow2 (e - 52);
                   n = round_half_even (m / q)
               in if e = 1023 \<and> n = 2 ^ 53 then (if v < 0 then NegInf else PosInf)
                  else Finite (if v < 0 then - (of_int n * q) else of_int n * q)))"

fun fl_neg :: "pyfloat \<Rightarrow> pyfloat" where
  "fl_neg NegInf = PosInf"
| "fl_neg (Finite a) = Finite (- a)"
| "fl_neg PosInf = NegInf"
| "fl_neg NaN = NaN"

fun fl_sub :: "pyfloat \<Rightarrow> pyfloat \<Rightarrow> pyfloat" where
  \<comment> \<open>\<open>a - b\<close>\<close>
  "fl_sub NaN b = NaN"
| "fl_sub NegInf b = (if b = NegInf \<or> b = NaN then NaN else NegInf)"
| "fl_sub PosInf b = (if b = PosInf \<or> b = NaN then NaN else PosInf)"
| "fl_sub (Finite x) NaN = NaN"
| "fl_sub (Finite x) NegInf = PosInf"
| "fl_sub (Finite x) PosInf = NegInf"
| "fl_sub (Finite x) (Finite y) = fl_round (x - y)"

fun fl_less :: "pyfloat \<Rightarrow> pyfloat \<Rightarrow> bool" where
  \<comment> \<open>\<open>a < b\<close>; every comparison with a NaN is false\<close>
  "fl_less NaN b = False"
| "fl_less NegInf b = (b \<noteq> NegInf \<and> b \<noteq> NaN)"
| "fl_less (Finite x) NegInf = False"
| "fl_less (Finite x) (Finite y) = (x < y)"
| "fl_less (Finite x) PosInf = True"
| "fl_less (Finite x) NaN = False"
| "fl_less PosInf b = False"

definition fl_eq :: "pyfloat \<Rightarrow> pyfloat \<Rightarrow> bool" where
  \<comment> \<open>\<open>a == b\<close>\<close>
  "fl_eq a b = (a = b \<and> a \<noteq> NaN)"

definition py_min :: "pyfloat \<Rightarrow> pyfloat \<Rightarrow> pyfloat" where
  \<comment> \<open>\<open>min(a, b)\<close>: the second argument only when it is smaller\<close>
  "py_min a b = (if fl_less b a then b else a)"

definition py_max :: "pyfloat \<Rightarrow> pyfloat \<Rightarrow> pyfloat" where
  \<comment> \<open>\<open>max(a, b)\<close>: the second argument only when it is greater\<close>
  "py_max a b = (if fl_less a b then b else a)"

subsection \<open>The built-in \<open>float()\<close> on a string\<close>

text \<open>
  \<open>py_float\<close> follows the grammar of the argument of \<open>float()\<close>: white space around it
  is removed; a sign may come first; then \<open>inf\<close>, \<open>infinity\<close> or \<open>nan\<close> in any case, or a
  number (digits, a dot, digits, with digits on at least one side of the dot) with an
  optional exponent; single underscores may stand between digits. The value of a number
  is rounded to the nearest double. \<open>None\<close> stands for \<open>ValueError\<close>.
\<close>

definition digit_value :: "char \<Rightarrow> nat" where
  "digit_value c = of_char c - 48"

definition digits_value :: "string \<Rightarrow> nat" where
  "digits_value ds = foldl (\<lambda>a c. 10 * a + digit_value c) 0 ds"

definition lower_char :: "char \<Rightarrow> char" where
  "lower_char c = (let n = (of_char c :: nat) in if 65 \<le> n \<and> n \<le> 90 then char_of (n + 32) else c)"

fun no_double_underscore :: "string \<Rightarrow> bool" where
  "no_double_underscore (c # d # r) =
     (\<not> (c = CHR ''_'' \<and> d = CHR ''_'') \<and> no_double_underscore (d # r))"
| "no_double_underscore r = True"

definition digitpart :: "string \<Rightarrow> string option" where
  \<comment> \<open>digits with single underscores between them; the result is the digits alone\<close>
  "digitpart t =
     (if t \<noteq> [] \<and> is_digit (hd t) \<and> is_digit (last t)
         \<and> list_all (\<lambda>c. is_digit c \<or> c = CHR ''_'') t \<and> no_double_underscore t
      then Some (filter is_digit t)
      else None)"

definition float_number :: "string \<Rightarrow> rat option" where
  \<comment> \<open>digits, or digits with a dot, or digits on both sides or after a dot\<close>
  "float_number t =
     (let ip = takeWhile (\<lambda>c. c \<noteq> CHR ''.'') t in
      case dropWhile (\<lambda>c. c \<noteq> CHR ''.'') t of
        [] \<Rightarrow> map_option (\<lambda>ds. of_nat (digits_value ds)) (digitpart ip)
      | _ # fp \<Rightarrow>
          if fp = [] then map_option (\<lambda>ds. of_nat (digits_value ds)) (digitpart ip)
          else (case digitpart fp of
                  None \<Rightarrow> None
                | Some fs \<Rightarrow>
                    if ip = [] then Some (of_nat (digits_value fs) / 10 ^ length fs)
                    else map_option
                           (\<lambda>ds. of_nat (digits_value ds) + of_nat (digits_value fs) / 10 ^ length fs)
                           (digitpart ip)))"

definition float_exponent :: "string \<Rightarrow> int option" where
  \<comment> \<open>what follows the \<open>e\<close>: an optional sign and digits\<close>
  "float_exponent t =
     (case t of
        [] \<Rightarrow> None
      | c # r \<Rightarrow>
          if c = CHR ''-'' then map_option (\<lambda>ds. - int (digits_value ds)) (digitpart r)
          else if c = CHR ''+'' then map_option (\<lambda>ds. int (digits_value ds)) (digitpart r)
          else map_option (\<lambda>ds. int (digits_value ds)) (digitpart t))"

definition pow10 :: "int \<Rightarrow> rat" where
  "pow10 k = (if 0 \<le> k then 10 ^ nat k else 1 / 10 ^ nat (- k))"

definition float_literal :: "string \<Rightarrow> rat option" where
  \<comment> \<open>a number with an optional exponent\<close>
  "float_literal t =
     (let mant = takeWhile (\<lambda>c. c \<noteq> CHR ''e'' \<and> c \<noteq> CHR ''E'') t in
      case dropWhile (\<lambda>c. c \<noteq> CHR ''e'' \<and> c \<noteq> CHR ''E'') t of
        [] \<Rightarrow> float_number mant
      | _ # ex \<Rightarrow>
          (case float_number mant of
             None \<Rightarrow> None
           | Some v \<Rightarrow> map_option (\<lambda>k. v * pow10 k) (float_exponent ex)))"

definition abs_float_value :: "string \<Rightarrow> pyfloat option" where
  "abs_float_value t =
     (let l = map lower_char t in
      if l = ''inf'' \<or> l = ''infinity'' then Some PosInf
      else if l = ''nan'' then Some NaN
      else map_option fl_round (float_literal t))"

definition py_float :: "string \<Rightarrow> pyfloat option" where
  "py_float s =
     (case strip s of
        [] \<Rightarrow> None
      | c # r \<Rightarrow>
          if c = CHR ''-'' then map_option fl_neg (abs_float_value r)
          else if c = CHR ''+'' then abs_float_value r
          else abs_float_value (c # r))"

subsection \<open>Parameter lookup: \<open>GCodeCommand.get_param\<close>\<close>

text \<open>
  \<open>re.search(rf"{letter}(-?\d+\.?\d*)", s)\<close> for a letter that is an ordinary character
  of the pattern. \<open>match_unsigned\<close> is \<open>\d+\.?\d*\<close> matched at the start of a text:
  every quantifier is greedy and none has to give anything back, so the match is the
  longest run of digits and, when a dot follows, the dot and the longest run of digits
  after it. \<open>match_number\<close> is the whole group: a minus sign is taken when digits follow
  it; without the sign the digits would have to start at the sign, so nothing is gained by
  giving it back. \<open>search_param\<close> tries the start positions from the left.
\<close>

definition match_unsigned :: "string \<Rightarrow> string option" where
  "match_unsigned r =
     (let ds = takeWhile is_digit r in
      if ds = [] then None
      else Some (ds @ (case dropWhile is_digit r of
                         [] \<Rightarrow> []
                       | c # fp \<Rightarrow> if c = CHR ''.'' then c # takeWhile is_digit fp else [])))"

definition match_number :: "string \<Rightarrow> string option" where
  "match_number t =
     (case t of
        [] \<Rightarrow> None
      | c # u \<Rightarrow>
          if c = CHR ''-'' then map_option ((#) c) (match_unsigned u)
          else match_unsigned t)"

fun search_param :: "char \<Rightarrow> string \<Rightarrow> string option" where
  "search_param letter [] = None"
| "search_param letter (c # cs) =
     (if c = letter then
        (case match_number cs of
           Some g \<Rightarrow> Some g
         | None \<Rightarrow> search_param letter cs)
      else search_param letter cs)"

definition get_param :: "GCodeCommand \<Rightarrow> char \<Rightarrow> pyfloat option" where
  "get_param cmd letter =
     (case search_param letter (stripped (raw cmd)) of
        Some g \<Rightarrow> py_float g
      | None \<Rightarrow> None)"

subsection \<open>Programs: \<open>GCodeFile\<close>\<close>

record GCodeFile =
  commands :: "GCodeCommand list"
  filename :: string

fun from_lines_loop :: "string list \<Rightarrow> GCodeCommand list" where
  "from_lines_loop [] = []"
| "from_lines_loop (line # rest) =
     (let l = strip line in
      if l \<noteq> [] \<and> \<not> is_empty (new_command l)
      then new_command l # from_lines_loop rest
      else from_lines_loop rest)"

definition from_lines :: "string list \<Rightarrow> GCodeFile" where
  "from_lines ls = \<lparr>commands = from_lines_loop ls, filename = ''<generated>''\<rparr>"

definition total :: "GCodeFile \<Rightarrow> nat" where
  "total f = length (commands f)"

definition sent_count :: "GCodeFile \<Rightarrow> nat" where
  "sent_count f = length (filter (\<lambda>c. status c \<noteq> QUEUED) (commands f))"

definition ok_count :: "GCodeFile \<Rightarrow> nat" where
  "ok_count f = length (filter (\<lambda>c. status c = OK) (commands f))"

definition error_count :: "GCodeFile \<Rightarrow> nat" where
  "error_count f = length (filter (\<lambda>c. status c = ERROR) (commands f))"

definition reset_status :: "GCodeFile \<Rightarrow> GCodeFile" where
  "reset_status f =
     f\<lparr>commands := map (\<lambda>c. c\<lparr>status := QUEUED, error_code := None\<rparr>) (commands f)\<rparr>"

text \<open>
  \<open>get_bounds\<close> starts its four extremes at \<open>float("inf")\<close> and \<open>float("-inf")\<close> and
  takes \<open>min_x == float("inf")\<close> at the end for a program without motion commands.
\<close>

record bounds_vars =
  cur_x :: pyfloat
  cur_y :: pyfloat
  min_x :: pyfloat
  min_y :: pyfloat
  max_x :: pyfloat
  max_y :: pyfloat

definition bounds_body :: "bounds_vars \<Rightarrow> GCodeCommand \<Rightarrow> bounds_vars" where
  \<comment> \<open>one iteration of the loop of \<open>get_bounds\<close>\<close>
  "bounds_body v cmd =
     (let x = (case get_param cmd CHR ''X'' of Some nx \<Rightarrow> nx | None \<Rightarrow> cur_x v);
          y = (case get_param cmd CHR ''Y'' of Some ny \<Rightarrow> ny | None \<Rightarrow> cur_y v);
          v1 = v\<lparr>cur_x := x, cur_y := y\<rparr> in
      if is_movement cmd
      then v1\<lparr>min_x := py_min (min_x v) x, min_y := py_min (min_y v) y,
              max_x := py_max (max_x v) x, max_y := py_max (max_y v) y\<rparr>
      else v1)"

definition get_bounds :: "GCodeFile \<Rightarrow> pyfloat \<times> pyfloat \<times> pyfloat \<times> pyfloat" where
  "get_bounds f =
     (let v = foldl bounds_body
                \<lparr>cur_x = Finite 0, cur_y = Finite 0, min_x = PosInf, min_y = PosInf,
                 max_x = NegInf, max_y = NegInf\<rparr>
                (commands f) in
      if fl_eq (min_x v) PosInf then (Finite 0, Finite 0, Finite 0, Finite 0)
      else (min_x v, min_y v, max_x v, max_y v))"

record toolpath_vars =
  points :: "(pyfloat \<times> pyfloat \<times> bool) list"
  pos_x :: pyfloat
  pos_y :: pyfloat
  laser_on :: bool

definition toolpath_body :: "toolpath_vars \<Rightarrow> GCodeCommand \<Rightarrow> toolpath_vars" where
  \<comment> \<open>one iteration of the loop of \<open>get_toolpath\<close>\<close>
  "toolpath_body v cmd =
     (let on = (if is_laser_on cmd then True
                else if is_laser_off cmd then False
                else laser_on v);
          x = (case get_param cmd CHR ''X'' of Some nx \<Rightarrow> nx | None \<Rightarrow> pos_x v);
          y = (case get_param cmd CHR ''Y'' of Some ny \<Rightarrow> ny | None \<Rightarrow> pos_y v);
          v1 = v\<lparr>pos_x := x, pos_y := y, laser_on := on\<rparr> in
      if is_movement cmd
      then (let power = get_param cmd CHR ''S'';
                is_cutting = (on \<or> (case power of Some p \<Rightarrow> fl_less (Finite 0) p | None \<Rightarrow> False)) in
            v1\<lparr>points := points v @ [(x, y, is_cutting)]\<rparr>)
      else v1)"

definition get_toolpath :: "GCodeFile \<Rightarrow> (pyfloat \<times> pyfloat \<times> bool) list" where
  "get_toolpath f =
     points (foldl toolpath_body
               \<lparr>points = [], pos_x = Finite 0, pos_y = Finite 0, laser_on = False\<rparr>
               (commands f))"

section \<open>The controller (core/grbl\_controller.py)\<close>

subsection \<open>State\<close>

datatype MachineStatus =
  DISCONNECTED | CONNECTING | IDLE | RUN | JOG | HOLD | DOOR | HOME | ALARM | CHECK | UNKNOWN

record ThreadingMode =
  status_query_ms :: nat
  tx_long_ms :: nat
  tx_short_ms :: nat
  rx_long_ms :: nat
  rx_short_ms :: nat
  mode_name :: string

definition threading_mode_of :: "nat \<Rightarrow> nat \<Rightarrow> nat \<Rightarrow> nat \<Rightarrow> nat \<Rightarrow> string \<Rightarrow> ThreadingMode" where
  "threading_mode_of q txl txs rxl rxs n =
     \<lparr>status_query_ms = q, tx_long_ms = txl, tx_short_ms = txs, rx_long_ms = rxl,
      rx_short_ms = rxs, mode_name = n\<rparr>"

definition THREADING_MODES :: "string \<Rightarrow> ThreadingMode option" where
  "THREADING_MODES = map_of
     [(''Slow'', threading_mode_of 2000 15 4 2 1 ''Slow''),
      (''Quiet'', threading_mode_of 1000 10 2 1 1 ''Quiet''),
      (''Fast'', threading_mode_of 500 5 1 1 0 ''Fast''),
      (''UltraFast'', threading_mode_of 250 1 0 1 0 ''UltraFast'')]"

definition RX_BUFFER_SIZE :: nat where
  "RX_BUFFER_SIZE = 128"

text \<open>
  The serial port: \<open>None\<close> in the controller is \<open>self._port = None\<close>. \<open>write_fails\<close>
  is the state of the link: while it is set, \<open>write\<close> raises \<open>serial.SerialException\<close>.
\<close>

record SerialPort =
  is_open :: bool
  write_fails :: bool

datatype pyexn = SerialException | ValueError | AttributeError | IndexError

text \<open>
  The actions on the transport and on the flags that the workers share, in the order in
  which they happen: every write to the port, every \<open>time.sleep\<close>, every assignment to
  \<open>_abort_flag\<close> and \<open>_streaming\<close>, every \<open>_buffer_fill.clear()\<close> and every call of the
  \<open>status\<close> setter appends its action to the \<open>trace\<close> of the controller.
\<close>

datatype action =
  Assign_abort_flag bool
| Assign_streaming bool
| Port_write string
| Buffer_fill_clear
| Status_set MachineStatus
| Sleep_ms nat

text \<open>
  The control points of the TX worker (\<open>_tx_loop\<close>), one for each place where it comes
  back to the shared state:
  \<^item> \<open>Tx_loop\<close>: at the head of the outer loop;
  \<^item> \<open>Tx_wait i byte_count buffer_used\<close>: at the head of the inner loop, holding the
    index of the command it fetched, its cost and the occupancy it last read under the lock;
  \<^item> \<open>Tx_ready i byte_count\<close>: past the inner loop, before the second test of the
    abort flag;
  \<^item> \<open>Tx_written i byte_count\<close>: the line is written to the port, before the lock is
    taken for the append to the inflight queue;
  \<^item> \<open>Tx_appended i\<close>: the cost is appended and the lock released, before
    \<open>cmd.status = CommandStatus.SENT\<close>;
  \<^item> \<open>Tx_marked\<close>: the command is marked SENT, before \<open>self._cmd_index += 1\<close>;
  \<^item> \<open>Tx_after_loop\<close>: past the outer loop, before the test of the abort flag;
  \<^item> \<open>Tx_drain\<close>: waiting for the remaining acknowledgments;
  \<^item> \<open>Tx_done\<close>: returned; \<open>Tx_crashed e\<close>: ended by an exception it does not catch.
\<close>

datatype tx_pc =
  Tx_loop
| Tx_wait nat nat nat
| Tx_ready nat nat
| Tx_written nat nat
| Tx_appended nat
| Tx_marked
| Tx_after_loop
| Tx_drain
| Tx_done
| Tx_crashed pyexn

record GrblController =
  port :: "SerialPort option"
  machine_status :: MachineStatus
  threading_mode :: ThreadingMode
  machine_x :: pyfloat
  machine_y :: pyfloat
  machine_z :: pyfloat
  work_x :: pyfloat
  work_y :: pyfloat
  work_z :: pyfloat
  grbl_version :: string
  feed_rate :: pyfloat
  spindle_speed :: pyfloat
  gfile :: "GCodeFile option"
  streaming :: bool
  paused :: bool
  abort_flag :: bool
  cmd_index :: nat
  buffer_fill :: "nat list"
  tx_thread :: "tx_pc option"
  alive :: bool
  rx_event :: bool
  trace :: "action list"

definition new_controller :: GrblController where
  \<comment> \<open>\<open>__init__\<close>; the observer slots stay \<open>None\<close> and are not modelled\<close>
  "new_controller =
     \<lparr>port = None, machine_status = DISCONNECTED,
      threading_mode = threading_mode_of 500 5 1 1 0 ''Fast'',
      machine_x = Finite 0, machine_y = Finite 0, machine_z = Finite 0,
      work_x = Finite 0, work_y = Finite 0, work_z = Finite 0,
      grbl_version = [], feed_rate = Finite 0, spindle_speed = Finite 0,
      gfile = None, streaming = False, paused = False, abort_flag = False,
      cmd_index = 0, buffer_fill = [], tx_thread = None, alive = False, rx_event = False,
      trace = []\<rparr>"

text \<open>
  A call either returns or raises; the object keeps what was assigned before the
  exception, so both outcomes carry the state.
\<close>

datatype 'a outcome = Returned 'a | Raised pyexn 'a

fun and_then :: "'a outcome \<Rightarrow> ('a \<Rightarrow> 'a outcome) \<Rightarrow> 'a outcome" where
  "and_then (Returned s) f = f s"
| "and_then (Raised e s) f = Raised e s"

fun state_of :: "'a outcome \<Rightarrow> 'a" where
  "state_of (Returned s) = s"
| "state_of (Raised e s) = s"

subsection \<open>Primitive actions\<close>

definition record_action :: "action \<Rightarrow> GrblController \<Rightarrow> GrblController" where
  "record_action a s = s\<lparr>trace := trace s @ [a]\<rparr>"

definition assign_abort_flag :: "bool \<Rightarrow> GrblController \<Rightarrow> GrblController" where
  "assign_abort_flag b s = record_action (Assign_abort_flag b) (s\<lparr>abort_flag := b\<rparr>)"

definition assign_streaming :: "bool \<Rightarrow> GrblController \<Rightarrow> GrblController" where
  "assign_streaming b s = record_action (Assign_streaming b) (s\<lparr>streaming := b\<rparr>)"

definition clear_buffer_fill :: "GrblController \<Rightarrow> GrblController" where
  "clear_buffer_fill s = record_action Buffer_fill_clear (s\<lparr>buffer_fill := []\<rparr>)"

definition sleep_ms :: "nat \<Rightarrow> GrblController \<Rightarrow> GrblController" where
  "sleep_ms n s = record_action (Sleep_ms n) s"

definition set_status :: "MachineStatus \<Rightarrow> GrblController \<Rightarrow> GrblController" where
  \<comment> \<open>the setter of the \<open>status\<close> property\<close>
  "set_status v s =
     record_action (Status_set v)
       (if machine_status s \<noteq> v then s\<lparr>machine_status := v\<rparr> else s)"

definition is_connected :: "GrblController \<Rightarrow> bool" where
  "is_connected s = (case port s of Some p \<Rightarrow> is_open p | None \<Rightarrow> False)"

definition is_streaming :: "GrblController \<Rightarrow> bool" where
  "is_streaming s = (streaming s \<and> \<not> paused s)"

definition port_write :: "string \<Rightarrow> GrblController \<Rightarrow> GrblController outcome" where
  \<comment> \<open>\<open>self._port.write(data)\<close>\<close>
  "port_write data s =
     (case port s of
        None \<Rightarrow> Raised AttributeError s
      | Some p \<Rightarrow>
          if \<not> is_open p \<or> write_fails p then Raised SerialException s
          else Returned (record_action (Port_write data) s))"

subsection \<open>Sending commands\<close>

definition send_realtime :: "string \<Rightarrow> GrblController \<Rightarrow> GrblController outcome" where
  "send_realtime data s = (if is_connected s then port_write data s else Returned s)"

definition send_command :: "string \<Rightarrow> GrblController \<Rightarrow> GrblController" where
  \<comment> \<open>the \<open>SerialException\<close> of the write is caught and logged\<close>
  "send_command cmd_str s =
     (if \<not> is_connected s then s
      else (let c = strip cmd_str in
            if c = [] then s
            else state_of (port_write (c @ [CHR 0x0A]) s)))"

definition soft_reset :: "GrblController \<Rightarrow> GrblController outcome" where
  "soft_reset s =
     and_then (send_realtime [CHR 0x18] s)
       (\<lambda>s1. Returned (set_status IDLE (clear_buffer_fill (assign_streaming False s1))))"

definition feed_hold :: "GrblController \<Rightarrow> GrblController outcome" where
  "feed_hold s = and_then (send_realtime ''!'' s) (\<lambda>s1. Returned (s1\<lparr>paused := True\<rparr>))"

definition cycle_resume :: "GrblController \<Rightarrow> GrblController outcome" where
  "cycle_resume s = and_then (send_realtime ''~'' s) (\<lambda>s1. Returned (s1\<lparr>paused := False\<rparr>))"

subsection \<open>Streaming: loading, starting, aborting\<close>

definition load_file :: "GCodeFile \<Rightarrow> GrblController \<Rightarrow> GrblController" where
  "load_file gcode_file s =
     clear_buffer_fill (s\<lparr>gfile := Some (reset_status gcode_file), cmd_index := 0\<rparr>)"

definition start_stream :: "GrblController \<Rightarrow> GrblController" where
  "start_stream s =
     (case gfile s of
        None \<Rightarrow> s
      | Some f \<Rightarrow>
          if \<not> is_connected s then s
          else if streaming s then s
          else (let s1 = s\<lparr>gfile := Some (reset_status f), cmd_index := 0\<rparr>;
                    s2 = assign_streaming True (clear_buffer_fill s1);
                    s3 = assign_abort_flag False (s2\<lparr>paused := False\<rparr>) in
                s3\<lparr>tx_thread := Some Tx_loop\<rparr>))"

definition abort_stream :: "GrblController \<Rightarrow> GrblController outcome" where
  "abort_stream s =
     and_then (soft_reset (assign_streaming False (assign_abort_flag True s)))
       (\<lambda>s1. Returned (send_command ''G0 X0 Y0'' (send_command ''M5'' (sleep_ms 500 s1))))"

definition disconnect_begin :: "GrblController \<Rightarrow> GrblController" where
  \<comment> \<open>the three assignments that open \<open>disconnect\<close>; the rest of it runs once the
      workers are joined\<close>
  "disconnect_begin s = assign_abort_flag True (assign_streaming False (s\<lparr>alive := False\<rparr>))"

subsection \<open>The RX worker: acknowledgments\<close>

fun mark_first_sent :: "(GCodeCommand \<Rightarrow> GCodeCommand) \<Rightarrow> GCodeCommand list \<Rightarrow> GCodeCommand list" where
  \<comment> \<open>the loop over the commands that updates the first one in SENT state and breaks\<close>
  "mark_first_sent upd [] = []"
| "mark_first_sent upd (c # cs) =
     (if status c = SENT then upd c # cs else c # mark_first_sent upd cs)"

definition pop_buffer_fill :: "GrblController \<Rightarrow> GrblController" where
  \<comment> \<open>\<open>if self._buffer_fill: self._buffer_fill.pop(0)\<close>\<close>
  "pop_buffer_fill s = (if buffer_fill s \<noteq> [] then s\<lparr>buffer_fill := tl (buffer_fill s)\<rparr> else s)"

definition handle_ok :: "GrblController \<Rightarrow> GrblController" where
  "handle_ok s =
     (let s1 = pop_buffer_fill s in
      case gfile s1 of
        Some f \<Rightarrow>
          if streaming s1
          then s1\<lparr>gfile := Some (f\<lparr>commands :=
                      mark_first_sent (\<lambda>c. c\<lparr>status := OK\<rparr>) (commands f)\<rparr>),
                  rx_event := True\<rparr>
          else s1
      | None \<Rightarrow> s1)"

definition handle_error :: "int \<Rightarrow> GrblController \<Rightarrow> GrblController" where
  "handle_error code s =
     (let s1 = pop_buffer_fill s in
      case gfile s1 of
        Some f \<Rightarrow>
          if streaming s1
          then s1\<lparr>gfile := Some (f\<lparr>commands :=
                      mark_first_sent (\<lambda>c. c\<lparr>status := ERROR, error_code := Some code\<rparr>)
                        (commands f)\<rparr>),
                  rx_event := True\<rparr>
          else s1
      | None \<Rightarrow> s1)"

definition rx_link_lost :: "GrblController \<Rightarrow> GrblController" where
  \<comment> \<open>the \<open>SerialException\<close> branch of \<open>_rx_loop\<close>\<close>
  "rx_link_lost s = (if alive s then set_status DISCONNECTED (s\<lparr>alive := False\<rparr>) else s)"

subsection \<open>The RX worker: status reports\<close>

fun split_on :: "char \<Rightarrow> string \<Rightarrow> string list" where
  \<comment> \<open>\<open>s.split(sep)\<close> for a separator of one character\<close>
  "split_on sep [] = [[]]"
| "split_on sep (c # cs) =
     (if c = sep then [] # split_on sep cs
      else (case split_on sep cs of
              w # ws \<Rightarrow> (c # w) # ws
            | [] \<Rightarrow> [[c]]))"

definition strip_chars :: "string \<Rightarrow> string \<Rightarrow> string" where
  \<comment> \<open>\<open>s.strip(chars)\<close>\<close>
  "strip_chars chars s =
     rev (dropWhile (\<lambda>c. c \<in> set chars) (rev (dropWhile (\<lambda>c. c \<in> set chars) s)))"

definition state_map :: "string \<Rightarrow> MachineStatus option" where
  "state_map = map_of
     [(''Idle'', IDLE), (''Run'', RUN), (''Jog'', JOG), (''Hold'', HOLD), (''Door'', DOOR),
      (''Home'', HOME), (''Alarm'', ALARM), (''Check'', CHECK)]"

definition parse_float :: "string \<Rightarrow> (pyfloat \<Rightarrow> GrblController outcome) \<Rightarrow> GrblController
    \<Rightarrow> GrblController outcome" where
  \<comment> \<open>\<open>float(text)\<close> followed by the rest of the branch; \<open>ValueError\<close> leaves the state
      as it is at that point\<close>
  "parse_float text rest s =
     (case py_float text of
        None \<Rightarrow> Raised ValueError s
      | Some v \<Rightarrow> rest v)"

definition parse_part :: "string \<Rightarrow> GrblController \<Rightarrow> GrblController outcome" where
  \<comment> \<open>the body of the loop over \<open>parts[1:]\<close>\<close>
  "parse_part part s =
     (if starts_with ''MPos:'' part then
        (case split_on CHR '','' (drop 5 part) of
           c0 # c1 # others \<Rightarrow>
             parse_float c0 (\<lambda>x. let s1 = s\<lparr>machine_x := x\<rparr> in
             parse_float c1 (\<lambda>y. let s2 = s1\<lparr>machine_y := y\<rparr> in
             (case others of
                c2 # _ \<Rightarrow> parse_float c2 (\<lambda>z. Returned (s2\<lparr>machine_z := z\<rparr>)) s2
              | [] \<Rightarrow> Returned (s2\<lparr>machine_z := Finite 0\<rparr>))) s1) s
         | _ \<Rightarrow> Returned s)
      else if starts_with ''WPos:'' part then
        (case split_on CHR '','' (drop 5 part) of
           c0 # c1 # others \<Rightarrow>
             parse_float c0 (\<lambda>x. let s1 = s\<lparr>work_x := x\<rparr> in
             parse_float c1 (\<lambda>y. let s2 = s1\<lparr>work_y := y\<rparr> in
             (case others of
                c2 # _ \<Rightarrow> parse_float c2 (\<lambda>z. Returned (s2\<lparr>work_z := z\<rparr>)) s2
              | [] \<Rightarrow> Returned (s2\<lparr>work_z := Finite 0\<rparr>))) s1) s
         | _ \<Rightarrow> Returned s)
      else if starts_with ''WCO:'' part then
        (case split_on CHR '','' (drop 4 part) of
           c0 # c1 # others \<Rightarrow>
             parse_float c0 (\<lambda>wco_x.
             parse_float c1 (\<lambda>wco_y.
               Returned (s\<lparr>work_x := fl_sub (machine_x s) wco_x,
                           work_y := fl_sub (machine_y s) wco_y\<rparr>)) s) s
         | _ \<Rightarrow> Returned s)
      else if starts_with ''FS:'' part \<or> starts_with ''F:'' part then
        (case split_on CHR '':'' part of
           _ # v # _ \<Rightarrow>
             (case split_on CHR '','' v of
                v0 # others \<Rightarrow>
                  parse_float v0 (\<lambda>f. let s1 = s\<lparr>feed_rate := f\<rparr> in
                  (case others of
                     v1 # _ \<Rightarrow> parse_float v1 (\<lambda>sp. Returned (s1\<lparr>spindle_speed := sp\<rparr>)) s1
                   | [] \<Rightarrow> Returned s1)) s
              | [] \<Rightarrow> Raised IndexError s)
         | _ \<Rightarrow> Raised IndexError s)
      else Returned s)"

fun parse_parts :: "string list \<Rightarrow> GrblController \<Rightarrow> GrblController outcome" where
  "parse_parts [] s = Returned s"
| "parse_parts (p # ps) s = and_then (parse_part p s) (parse_parts ps)"

definition parse_status_report :: "string \<Rightarrow> GrblController \<Rightarrow> GrblController outcome" where
  "parse_status_report line s =
     (case split_on CHR ''|'' (strip_chars ''<>'' line) of
        [] \<Rightarrow> Returned s
      | p0 # rest \<Rightarrow>
          (let state_str = strip p0;
               base_state = (case split_on CHR '':'' state_str of b # _ \<Rightarrow> b | [] \<Rightarrow> []);
               new_status = (case state_map base_state of Some m \<Rightarrow> m | None \<Rightarrow> UNKNOWN)
           in parse_parts rest (set_status new_status s)))"

subsection \<open>The TX worker: \<open>_tx_loop\<close>\<close>

text \<open>
  One transition of the TX worker from a control point to the next. \<open>deadline_passed\<close>
  says whether the 30 seconds of the drain loop are over; it is read at \<open>Tx_drain\<close> only.
  The command fetched at the head of the loop is kept by its index; the run of one program
  never replaces the list, so the index names the same object until it is sent. Sending a
  command takes four transitions: the write to the port; the append of the cost to the
  inflight queue, which alone is done under the lock; the assignment of SENT to the status
  of the command; and the increment of the cursor, followed by the sleep of the threading
  mode. The other threads may run between any two of them.
\<close>

definition tx_finish :: "GrblController \<Rightarrow> GrblController" where
  \<comment> \<open>\<open>self._streaming = False\<close> and the return of the worker\<close>
  "tx_finish s = (assign_streaming False s)\<lparr>tx_thread := Some Tx_done\<rparr>"

definition tx_append :: "nat \<Rightarrow> nat \<Rightarrow> GrblController \<Rightarrow> GrblController" where
  \<comment> \<open>\<open>with self._lock: self._buffer_fill.append(byte_count)\<close>\<close>
  "tx_append i byte_cnt s =
     s\<lparr>buffer_fill := buffer_fill s @ [byte_cnt], tx_thread := Some (Tx_appended i)\<rparr>"

definition tx_mark :: "GCodeFile \<Rightarrow> nat \<Rightarrow> GrblController \<Rightarrow> GrblController" where
  \<comment> \<open>\<open>cmd.status = CommandStatus.SENT\<close>\<close>
  "tx_mark f i s =
     s\<lparr>gfile := Some (f\<lparr>commands := (commands f)[i := (commands f ! i)\<lparr>status := SENT\<rparr>]\<rparr>),
       tx_thread := Some Tx_marked\<rparr>"

definition tx_advance :: "GrblController \<Rightarrow> GrblController" where
  \<comment> \<open>\<open>self._cmd_index += 1\<close>, then the sleep of \<open>tx_short_ms\<close> and back to the head
      of the loop\<close>
  "tx_advance s =
     (let s1 = s\<lparr>cmd_index := cmd_index s + 1\<rparr>;
          sleep = tx_short_ms (threading_mode s1);
          s2 = (if sleep > 0 then sleep_ms sleep s1 else s1)
      in s2\<lparr>tx_thread := Some Tx_loop\<rparr>)"

definition tx_step :: "bool \<Rightarrow> GrblController \<Rightarrow> GrblController" where
  "tx_step deadline_passed s =
     (case (tx_thread s, gfile s) of
        (None, _) \<Rightarrow> s
      | (Some Tx_done, _) \<Rightarrow> s
      | (Some (Tx_crashed e), _) \<Rightarrow> s
      | (Some pc, None) \<Rightarrow> s\<lparr>tx_thread := Some (Tx_crashed AttributeError)\<rparr>
      | (Some Tx_loop, Some f) \<Rightarrow>
          if streaming s \<and> alive s \<and> cmd_index s < total f then
            if abort_flag s then s\<lparr>tx_thread := Some Tx_after_loop\<rparr>
            else if paused s then sleep_ms 50 s
            else s\<lparr>tx_thread := Some (Tx_wait (cmd_index s)
                        (byte_count (commands f ! cmd_index s)) (sum_list (buffer_fill s)))\<rparr>
          else s\<lparr>tx_thread := Some Tx_after_loop\<rparr>
      | (Some (Tx_wait i byte_cnt buffer_used), Some f) \<Rightarrow>
          if buffer_used + byte_cnt > RX_BUFFER_SIZE then
            if abort_flag s \<or> \<not> alive s then s\<lparr>tx_thread := Some (Tx_ready i byte_cnt)\<rparr>
            else s\<lparr>rx_event := False,
                   tx_thread := Some (Tx_wait i byte_cnt (sum_list (buffer_fill s)))\<rparr>
          else s\<lparr>tx_thread := Some (Tx_ready i byte_cnt)\<rparr>
      | (Some (Tx_ready i byte_cnt), Some f) \<Rightarrow>
          if abort_flag s \<or> \<not> alive s then s\<lparr>tx_thread := Some Tx_after_loop\<rparr>
          else if \<not> i < total f then s\<lparr>tx_thread := Some (Tx_crashed IndexError)\<rparr>
          else (case port_write (serial_bytes (commands f ! i)) s of
                  Returned s1 \<Rightarrow> s1\<lparr>tx_thread := Some (Tx_written i byte_cnt)\<rparr>
                | Raised e s1 \<Rightarrow>
                    if e = SerialException
                    then (assign_streaming False s1)\<lparr>tx_thread := Some Tx_after_loop\<rparr>
                    else s1\<lparr>tx_thread := Some (Tx_crashed e)\<rparr>)
      | (Some (Tx_written i byte_cnt), Some f) \<Rightarrow> tx_append i byte_cnt s
      | (Some (Tx_appended i), Some f) \<Rightarrow> tx_mark f i s
      | (Some Tx_marked, Some f) \<Rightarrow> tx_advance s
      | (Some Tx_after_loop, Some f) \<Rightarrow>
          if \<not> abort_flag s then s\<lparr>tx_thread := Some Tx_drain\<rparr> else tx_finish s
      | (Some Tx_drain, Some f) \<Rightarrow>
          if buffer_fill s \<noteq> [] \<and> \<not> deadline_passed then sleep_ms 100 s else tx_finish s)"

subsection \<open>One streaming run as an interleaving of the workers\<close>

text \<open>
  What can happen next while a program is streamed: a transition of the TX worker, a
  line handled by the RX worker, a call of a public operation from the caller's thread,
  or a failure of the link. The workers interleave between events: a handler of the RX
  worker runs under the lock, and what the TX worker does outside the lock is one event
  for each access to the shared state.
  \<open>Rx_ok\<close> and \<open>Rx_error code\<close> are the lines \<open>ok\<close> and \<open>error:code\<close> as
  \<open>_process_response\<close> hands them to \<open>_handle_ok\<close> and \<open>_handle_error\<close>; they may come
  at any time, also as replies to lines written outside the stream. \<open>Call_disconnect\<close> is
  the part of \<open>disconnect\<close> that runs before the workers are joined. One TX worker runs:
  the run begins with \<open>start_stream\<close> and \<open>start_stream\<close> is not among its events.
\<close>

datatype event =
  Tx
| Tx_deadline
| Rx_ok
| Rx_error int
| Rx_link_lost
| Call_feed_hold
| Call_cycle_resume
| Call_soft_reset
| Call_abort_stream
| Call_send_command string
| Call_disconnect
| Link_failure

fun step :: "event \<Rightarrow> GrblController \<Rightarrow> GrblController" where
  "step Tx s = tx_step False s"
| "step Tx_deadline s = tx_step True s"
| "step Rx_ok s = handle_ok s"
| "step (Rx_error code) s = handle_error code s"
| "step Rx_link_lost s = rx_link_lost s"
| "step Call_feed_hold s = state_of (feed_hold s)"
| "step Call_cycle_resume s = state_of (cycle_resume s)"
| "step Call_soft_reset s = state_of (soft_reset s)"
| "step Call_abort_stream s = state_of (abort_stream s)"
| "step (Call_send_command line) s = send_command line s"
| "step Call_disconnect s = disconnect_begin s"
| "step Link_failure s = s\<lparr>port := map_option (\<lambda>p. p\<lparr>write_fails := True\<rparr>) (port s)\<rparr>"

definition exec :: "event list \<Rightarrow> GrblController \<Rightarrow> GrblController" where
  "exec evs s = foldl (\<lambda>t e. step e t) s evs"

section \<open>Notions of the specification\<close>

subsection \<open>Comments\<close>

text \<open>
  A text holds no comment when no opening parenthesis in it starts a match of the
  comment pattern.
\<close>

fun no_comment :: "string \<Rightarrow> bool" where
  "no_comment [] = True"
| "no_comment (c # cs) = ((c = CHR ''('' \<longrightarrow> find_close cs = None) \<and> no_comment cs)"

subsection \<open>Occurrences of a parameter\<close>

text \<open>
  The wording of the specification for parameter lookup: the letter, followed by an
  optional sign and a decimal number. A sign is a plus or a minus; a decimal number is
  written with digits and an optional fraction, or as a fraction alone, so a text starts
  with one when it starts with a digit or with a dot and a digit.
  \<open>worded_param_at letter s i\<close> says that such an occurrence starts at position \<open>i\<close>
  of the text, \<open>worded_value t\<close> is the number that the text \<open>t\<close> starts with, sign
  included: the digits before the dot, plus the digits after it scaled by their count.
  \<open>worded_lookup\<close> is the lookup in these words: the value, as a float, at the first
  occurrence.
\<close>

definition is_alpha :: "char \<Rightarrow> bool" where
  "is_alpha c = (let n = (of_char c :: nat) in (65 \<le> n \<and> n \<le> 90) \<or> (97 \<le> n \<and> n \<le> 122))"

definition fraction_digits :: "string \<Rightarrow> string" where
  "fraction_digits r =
     (case dropWhile is_digit r of
        [] \<Rightarrow> []
      | c # v \<Rightarrow> if c = CHR ''.'' then takeWhile is_digit v else [])"

definition unsigned_value :: "string \<Rightarrow> rat" where
  "unsigned_value r =
     of_nat (digits_value (takeWhile is_digit r))
     + of_nat (digits_value (fraction_digits r)) / 10 ^ length (fraction_digits r)"

definition starts_decimal :: "string \<Rightarrow> bool" where
  "starts_decimal t =
     (case t of
        [] \<Rightarrow> False
      | c # u \<Rightarrow> is_digit c \<or> (c = CHR ''.'' \<and> (case u of [] \<Rightarrow> False | d # _ \<Rightarrow> is_digit d)))"

definition worded_number :: "string \<Rightarrow> bool" where
  "worded_number t =
     (case t of
        [] \<Rightarrow> False
      | c # u \<Rightarrow> if c = CHR ''+'' \<or> c = CHR ''-'' then starts_decimal u else starts_decimal t)"

definition worded_param_at :: "char \<Rightarrow> string \<Rightarrow> nat \<Rightarrow> bool" where
  "worded_param_at letter s i =
     (i < length s \<and> s ! i = letter \<and> worded_number (drop (Suc i) s))"

definition worded_value :: "string \<Rightarrow> rat" where
  "worded_value t =
     (case t of
        [] \<Rightarrow> 0
      | c # u \<Rightarrow>
          if c = CHR ''-'' then - unsigned_value u
          else if c = CHR ''+'' then unsigned_value u
          else unsigned_value t)"

definition worded_lookup :: "char \<Rightarrow> string \<Rightarrow> pyfloat option" where
  "worded_lookup letter s =
     map_option (\<lambda>i. fl_round (worded_value (drop (Suc i) s)))
       (find (worded_param_at letter s) [0..<length s])"

text \<open>
  The narrower occurrences: the letter, followed by an optional minus sign and a decimal
  number that starts with a digit. \<open>param_at letter s i\<close> says that one starts at
  position \<open>i\<close>, and \<open>decimal_value t\<close> is the number that \<open>t\<close> starts with, negated
  after a minus sign.
\<close>

definition starts_number :: "string \<Rightarrow> bool" where
  "starts_number t =
     (case t of
        [] \<Rightarrow> False
      | c # u \<Rightarrow> is_digit c \<or> (c = CHR ''-'' \<and> (case u of [] \<Rightarrow> False | d # _ \<Rightarrow> is_digit d)))"

definition param_at :: "char \<Rightarrow> string \<Rightarrow> nat \<Rightarrow> bool" where
  "param_at letter s i = (i < length s \<and> s ! i = letter \<and> starts_number (drop (Suc i) s))"

definition decimal_value :: "string \<Rightarrow> rat" where
  "decimal_value t =
     (case t of
        [] \<Rightarrow> 0
      | c # u \<Rightarrow> if c = CHR ''-'' then - unsigned_value u else unsigned_value t)"

subsection \<open>Positions and laser state along a program\<close>

text \<open>
  The wording of the specification for the derived data of a program. \<open>last_param start
  letter lines\<close> is the value of the letter on the last of the lines that carries it, and
  \<open>start\<close> when none does: an axis keeps its last value. \<open>position_at cs j\<close> is the
  position after command \<open>j\<close>, tracked from the origin over all commands up to it.
  \<open>laser_enabled cs j\<close>: some command \<open>i \<le> j\<close> holds M3 or M4 and no command after
  \<open>i\<close> up to \<open>j\<close> holds M5.
\<close>

definition last_param :: "pyfloat \<Rightarrow> char \<Rightarrow> GCodeCommand list \<Rightarrow> pyfloat" where
  "last_param start letter lines =
     (case rev (List.map_filter (\<lambda>c. get_param c letter) lines) of
        [] \<Rightarrow> start
      | v # _ \<Rightarrow> v)"

definition position_at :: "GCodeCommand list \<Rightarrow> nat \<Rightarrow> pyfloat \<times> pyfloat" where
  "position_at cs j =
     (last_param (Finite 0) CHR ''X'' (take (Suc j) cs),
      last_param (Finite 0) CHR ''Y'' (take (Suc j) cs))"

definition motion_indices :: "GCodeCommand list \<Rightarrow> nat list" where
  "motion_indices cs = filter (\<lambda>j. is_movement (cs ! j)) [0..<length cs]"

definition motion_points :: "GCodeCommand list \<Rightarrow> (pyfloat \<times> pyfloat) list" where
  "motion_points cs = map (position_at cs) (motion_indices cs)"

definition laser_enabled :: "GCodeCommand list \<Rightarrow> nat \<Rightarrow> bool" where
  "laser_enabled cs j =
     list_ex (\<lambda>i. is_laser_on (cs ! i) \<and> list_all (\<lambda>k. \<not> is_laser_off (cs ! k)) [Suc i..<Suc j])
       [0..<Suc j]"

definition positive_power :: "GCodeCommand \<Rightarrow> bool" where
  "positive_power cmd = (case get_param cmd CHR ''S'' of Some p \<Rightarrow> fl_less (Finite 0) p | None \<Rightarrow> False)"

text \<open>The laser after the lines \<open>0..j\<close>, when it was \<open>on0\<close> before them.\<close>

definition laser_from :: "bool \<Rightarrow> GCodeCommand list \<Rightarrow> nat \<Rightarrow> bool" where
  "laser_from on0 cs j = (laser_enabled cs j \<or> (on0 \<and> (\<forall>k\<le>j. \<not> is_laser_off (cs ! k))))"

subsection \<open>Controller states\<close>

definition commands_of :: "GrblController \<Rightarrow> GCodeCommand list" where
  \<comment> \<open>the commands of the loaded program, none when no program is loaded\<close>
  "commands_of s = (case gfile s of Some f \<Rightarrow> commands f | None \<Rightarrow> [])"

definition connected_controller :: "GCodeFile \<Rightarrow> GrblController" where
  \<comment> \<open>a controller after a successful \<open>connect\<close> and \<open>load_file\<close>\<close>
  "connected_controller f =
     load_file f (new_controller\<lparr>port := Some \<lparr>is_open = True, write_fails = False\<rparr>,
                                machine_status := IDLE, alive := True\<rparr>)"

subsection \<open>Invariants of a streaming run\<close>


fun is_ack :: "event \<Rightarrow> bool" where
  "is_ack Rx_ok = True"
| "is_ack (Rx_error code) = True"
| "is_ack e = False"

fun is_tx :: "event \<Rightarrow> bool" where
  "is_tx Tx = True"
| "is_tx Tx_deadline = True"
| "is_tx e = False"



subsection \<open>Acknowledgments and writes along a run\<close>

text \<open>
  \<open>ack_matches s\<close>: an acknowledgment handled in \<open>s\<close> meets a streaming run with a
  command in SENT state. \<open>matched_acks evs s\<close> counts the acknowledgments among the
  events \<open>evs\<close>, run from \<open>s\<close>, that were handled in such a state. \<open>tx_writes s\<close> is
  the index of the command that the next transition of the TX worker writes to the port,
  if it writes one, and \<open>sent_order evs s\<close> lists these indices in the order of the
  writes.
\<close>

definition ack_matches :: "GrblController \<Rightarrow> bool" where
  "ack_matches s = (streaming s \<and> list_ex (\<lambda>c. status c = SENT) (commands_of s))"

fun matched_acks :: "event list \<Rightarrow> GrblController \<Rightarrow> nat" where
  "matched_acks [] s = 0"
| "matched_acks (e # es) s =
     (if is_ack e \<and> ack_matches s then 1 else 0) + matched_acks es (step e s)"

definition tx_writes :: "GrblController \<Rightarrow> nat option" where
  "tx_writes s =
     (case (tx_thread s, gfile s) of
        (Some (Tx_ready i byte_cnt), Some f) \<Rightarrow>
          if abort_flag s \<or> \<not> alive s \<or> \<not> i < total f then None
          else (case port_write (serial_bytes (commands f ! i)) s of
                  Returned _ \<Rightarrow> Some i
                | Raised _ _ \<Rightarrow> None)
      | _ \<Rightarrow> None)"

fun sent_order :: "event list \<Rightarrow> GrblController \<Rightarrow> nat list" where
  "sent_order [] s = []"
| "sent_order (e # es) s =
     (if is_tx e then (case tx_writes s of Some i \<Rightarrow> [i] | None \<Rightarrow> []) else [])
     @ sent_order es (step e s)"

text \<open>
  A program of two lines and a run in which the reply to the first line is handled after
  the TX worker has appended the cost of the line and before it has marked the command
  SENT: four transitions of the TX worker (to the inner loop, past it, the write, the
  append), the \<open>ok\<close>, and the two transitions that mark the command and move the cursor.
  \<open>both_lines_run\<close> goes on with the six transitions that send the second line and with
  the \<open>ok\<close> that answers it.
\<close>

definition two_line_program :: GCodeFile where
  "two_line_program = from_lines [''G0 X0'', ''G0 X1'']"

definition early_ack_run :: "event list" where
  "early_ack_run = [Tx, Tx, Tx, Tx, Rx_ok, Tx, Tx]"

definition both_lines_run :: "event list" where
  "both_lines_run = early_ack_run @ [Tx, Tx, Tx, Tx, Tx, Tx, Rx_ok]"

subsection \<open>A coordinate beyond the range of a float\<close>

text \<open>A program of one motion command whose X parameter has 310 digits.\<close>

definition long_x_line :: string where
  "long_x_line = ''G1 X'' @ replicate 310 CHR ''9''"

definition long_x_program :: GCodeFile where
  "long_x_program = from_lines [long_x_line]"
section \<open>Line normalization\<close>

lemma find_close_remove: "find_close cs = None \<Longrightarrow> find_close (remove_paren_comments cs) = None"
  by (induction cs rule: remove_paren_comments.induct) (auto split: option.splits if_splits)

lemma no_comment_remove: "no_comment (remove_paren_comments s)"
  by (induction s rule: remove_paren_comments.induct) (auto split: option.splits simp: find_close_remove)

lemma no_comment_fixed: "no_comment s \<Longrightarrow> remove_paren_comments s = s"
  by (induction s) auto

lemma find_close_prefix: "find_close (xs @ ys) = None \<Longrightarrow> find_close xs = None"
  by (induction xs) (auto split: if_splits)

lemma no_comment_prefix: "no_comment (xs @ ys) \<Longrightarrow> no_comment xs"
  by (induction xs) (auto dest: find_close_prefix)

lemma no_comment_suffix: "no_comment (xs @ ys) \<Longrightarrow> no_comment ys"
  by (induction xs) auto

lemma no_comment_takeWhile: "no_comment s \<Longrightarrow> no_comment (takeWhile P s)"
  using no_comment_prefix [of "takeWhile P s" "dropWhile P s"] by simp

lemma no_comment_dropWhile: "no_comment s \<Longrightarrow> no_comment (dropWhile P s)"
  using no_comment_suffix [of "takeWhile P s" "dropWhile P s"] by simp

lemma rev_dropWhile_rev_prefix: "rev (dropWhile P (rev s)) @ rev (takeWhile P (rev s)) = s"
  by (metis rev_append rev_rev_ident takeWhile_dropWhile_id)

lemma no_comment_strip: "no_comment s \<Longrightarrow> no_comment (strip s)"
  unfolding strip_def
  using no_comment_prefix [of "rev (dropWhile is_space (rev (dropWhile is_space s)))"
      "rev (takeWhile is_space (rev (dropWhile is_space s)))"]
  by (simp add: rev_dropWhile_rev_prefix no_comment_dropWhile)


lemma of_char_upper_char:
  "(of_char (upper_char c) :: nat) =
     (if 97 \<le> (of_char c :: nat) \<and> (of_char c :: nat) \<le> 122 then of_char c - 32 else of_char c)"
  by (auto simp: upper_char_def Let_def)

lemma upper_char_fixes:
  assumes "\<not> (65 \<le> (of_char d :: nat) \<and> (of_char d :: nat) \<le> 90)"
    and low: "\<not> (97 \<le> (of_char d :: nat) \<and> (of_char d :: nat) \<le> 122)"
  shows "upper_char c = d \<longleftrightarrow> c = d"
proof
  assume h: "upper_char c = d"
  have "(of_char (upper_char c) :: nat) = of_char d" using h by simp
  with assms(1) have "\<not> (97 \<le> (of_char c :: nat) \<and> (of_char c :: nat) \<le> 122)"
    by (auto simp: of_char_upper_char split: if_splits)
  with h show "c = d" by (simp add: upper_char_def Let_def)
next
  assume "c = d"
  with low show "upper_char c = d" by (auto simp: upper_char_def Let_def)
qed

lemma upper_char_paren [simp]:
  "upper_char c = CHR '')'' \<longleftrightarrow> c = CHR '')''"
  "upper_char c = CHR ''('' \<longleftrightarrow> c = CHR ''(''"
  "upper_char c = CHR 0x0A \<longleftrightarrow> c = CHR 0x0A"
  "upper_char c = CHR '';'' \<longleftrightarrow> c = CHR '';''"
  by (simp_all add: upper_char_fixes)

lemma is_space_upper [simp]: "is_space (upper_char c) = is_space c"
  by (auto simp: is_space_def Let_def of_char_upper_char)

lemma upper_char_idem [simp]: "upper_char (upper_char c) = upper_char c"
proof -
  have "\<not> (97 \<le> (of_char (upper_char c) :: nat) \<and> (of_char (upper_char c) :: nat) \<le> 122)"
    by (auto simp: of_char_upper_char)
  then show ?thesis
    by (auto simp: upper_char_def [of "upper_char c"] Let_def)
qed

lemma find_close_upper: "find_close (upper s) = map_option upper (find_close s)"
  by (induction s) (auto simp: upper_def)

lemma no_comment_upper: "no_comment (upper s) = no_comment s"
  by (induction s) (auto simp: upper_def find_close_upper [unfolded upper_def])

lemma dropWhile_space_upper: "dropWhile is_space (upper s) = upper (dropWhile is_space s)"
  by (induction s) (auto simp: upper_def)

lemma strip_upper: "strip (upper s) = upper (strip s)"
  by (simp add: strip_def dropWhile_space_upper upper_def rev_map dropWhile_map comp_def)

lemma upper_idem: "upper (upper s) = upper s"
  by (simp add: upper_def)

lemma dropWhile_prefix_fixed:
  assumes "dropWhile P a = a"
  shows "dropWhile P (rev (dropWhile P (rev a))) = rev (dropWhile P (rev a))"
proof (cases "rev (dropWhile P (rev a))")
  case Nil
  show ?thesis by (simp only: Nil dropWhile.simps)
next
  case (Cons x xs)
  have "a = (x # xs) @ rev (takeWhile P (rev a))"
    using rev_dropWhile_rev_prefix [of P a] Cons by simp
  then have "a = x # (xs @ rev (takeWhile P (rev a)))" by simp
  with assms have "\<not> P x"
    by (metis dropWhile_eq_Cons_conv)
  with Cons show ?thesis by simp
qed

lemma strip_idem: "strip (strip s) = strip s"
proof -
  have "dropWhile is_space (dropWhile is_space s) = dropWhile is_space s" by simp
  from dropWhile_prefix_fixed [OF this]
  show ?thesis by (simp add: strip_def)
qed

lemma semicolon_free_strip: "CHR '';'' \<notin> set s \<Longrightarrow> CHR '';'' \<notin> set (strip s)"
  unfolding strip_def by (auto dest!: set_dropWhileD)

lemma semicolon_free_before: "CHR '';'' \<notin> set (before_semicolon s)"
  unfolding before_semicolon_def by (auto dest: set_takeWhileD)

lemma before_semicolon_fixed: "CHR '';'' \<notin> set s \<Longrightarrow> before_semicolon s = s"
  unfolding before_semicolon_def by (auto simp: takeWhile_eq_all_conv)

lemma semicolon_free_upper: "CHR '';'' \<notin> set (upper s) \<longleftrightarrow> CHR '';'' \<notin> set s"
  by (induction s) (simp_all add: upper_def eq_commute [of "CHR '';''"])

text \<open>
  C3: line normalization is idempotent: normalizing a line that is already normalized
  returns it unchanged, for every raw line.
\<close>

theorem stripped_idempotent: "stripped (stripped L) = stripped L"
proof -
  let ?t = "before_semicolon (remove_paren_comments L)"
  let ?n = "stripped L"
  have n: "?n = upper (strip ?t)" by (simp add: stripped_def)
  have "no_comment ?n"
    unfolding n by (simp add: no_comment_upper no_comment_strip before_semicolon_def
        no_comment_takeWhile no_comment_remove)
  then have 1: "remove_paren_comments ?n = ?n" by (rule no_comment_fixed)
  have "CHR '';'' \<notin> set ?n"
    unfolding n by (simp add: semicolon_free_upper semicolon_free_strip semicolon_free_before)
  then have 2: "before_semicolon ?n = ?n" by (rule before_semicolon_fixed)
  have 3: "upper (strip ?n) = ?n"
    unfolding n by (simp add: strip_upper strip_idem upper_idem)
  show ?thesis
    unfolding stripped_def [of "stripped L"] 1 2 3 ..
qed

section \<open>Parameter lookup\<close>

lemma not_digit_signs [simp]:
  "\<not> is_digit CHR ''-''" "\<not> is_digit CHR ''.''" "\<not> is_digit CHR ''+''"
  by (simp_all add: is_digit_def)

lemma digit_not_space: "is_digit c \<Longrightarrow> \<not> is_space c"
  by (auto simp: is_digit_def is_space_def Let_def)

lemma match_unsigned_None: "match_unsigned r = None \<longleftrightarrow> (r = [] \<or> \<not> is_digit (hd r))"
  by (cases r) (simp_all add: match_unsigned_def Let_def)

lemma match_number_None: "match_number t = None \<longleftrightarrow> \<not> starts_number t"
proof (cases t)
  case Nil
  then show ?thesis by (simp add: match_number_def starts_number_def)
next
  case (Cons c u)
  show ?thesis
  proof (cases "c = CHR ''-''")
    case True
    with Cons show ?thesis
      by (cases u) (simp_all add: match_number_def starts_number_def match_unsigned_None)
  next
    case False
    with Cons show ?thesis
      using match_unsigned_None [of t]
      by (simp add: match_number_def starts_number_def)
  qed
qed

lemma strip_fixed:
  assumes "s \<noteq> []" "\<not> is_space (hd s)" "\<not> is_space (last s)"
  shows "strip s = s"
proof -
  from assms have 1: "dropWhile is_space s = s" by (cases s) auto
  from assms have "dropWhile is_space (rev s) = rev s"
    by (cases "rev s") (auto simp: last_rev [symmetric] simp del: last_rev)
  with 1 show ?thesis by (simp add: strip_def)
qed

lemma takeWhile_all_digits: "list_all is_digit (takeWhile is_digit r)"
  by (auto simp: list_all_iff dest: set_takeWhileD)

lemma last_digits: "ds \<noteq> [] \<Longrightarrow> list_all is_digit ds \<Longrightarrow> is_digit (last ds)"
  by (simp add: list_all_iff)

lemma fl_neg_round: "fl_neg (fl_round v) = fl_round (- v)"
proof -
  define e where "e = max (binary_exponent \<bar>v\<bar>) (- 1022)"
  define n where "n = round_half_even (\<bar>v\<bar> / pow2 (e - 52))"
  define r where "r = of_int n * pow2 (e - 52)"
  have a: "fl_round v =
      (if 1024 \<le> e then (if v < 0 then NegInf else PosInf)
       else if e = 1023 \<and> n = 2 ^ 53 then (if v < 0 then NegInf else PosInf)
       else Finite (if v < 0 then - r else r))"
    by (simp only: fl_round_def Let_def e_def n_def r_def)
  have b: "fl_round (- v) =
      (if 1024 \<le> e then (if - v < 0 then NegInf else PosInf)
       else if e = 1023 \<and> n = 2 ^ 53 then (if - v < 0 then NegInf else PosInf)
       else Finite (if - v < 0 then - r else r))"
    by (simp only: fl_round_def Let_def e_def n_def r_def abs_minus_cancel)
  have z: "fl_round 0 = Finite 0" by code_simp
  consider "v < 0" | "v = 0" | "0 < v" by linarith
  then show ?thesis
  proof cases
    case 1
    then show ?thesis unfolding a b by simp
  next
    case 2
    with z show ?thesis by simp
  next
    case 3
    then show ?thesis unfolding a b by simp
  qed
qed

lemma digits_no_double_underscore: "list_all is_digit t \<Longrightarrow> no_double_underscore t"
  by (induction t rule: no_double_underscore.induct) (auto simp: is_digit_def)

lemma digitpart_digits:
  assumes "ds \<noteq> []" "list_all is_digit ds"
  shows "digitpart ds = Some ds"
proof -
  from assms have "is_digit (hd ds)" by (cases ds) simp_all
  moreover have "is_digit (last ds)" using assms by (rule last_digits)
  moreover have "list_all (\<lambda>c. is_digit c \<or> c = CHR ''_'') ds"
    using assms(2) by (simp add: list_all_iff)
  moreover have "filter is_digit ds = ds" using assms(2) by (simp add: list_all_iff)
  ultimately show ?thesis
    using assms digits_no_double_underscore [OF assms(2)] by (simp add: digitpart_def)
qed

lemma digits_no_dot: "list_all is_digit ds \<Longrightarrow> \<forall>c\<in>set ds. c \<noteq> CHR ''.''"
  by (auto simp: list_all_iff)

lemma digits_no_e: "list_all is_digit ds \<Longrightarrow> \<forall>c\<in>set ds. c \<noteq> CHR ''e'' \<and> c \<noteq> CHR ''E''"
  by (auto simp: list_all_iff is_digit_def)

lemma float_number_digits:
  assumes "ds \<noteq> []" "list_all is_digit ds"
  shows "float_number ds = Some (of_nat (digits_value ds))"
proof -
  from digits_no_dot [OF assms(2)]
  have tw: "takeWhile (\<lambda>c. c \<noteq> CHR ''.'') ds = ds" and dw: "dropWhile (\<lambda>c. c \<noteq> CHR ''.'') ds = []"
    by simp_all
  show ?thesis unfolding float_number_def Let_def tw dw
    by (simp add: digitpart_digits [OF assms])
qed

lemma float_number_fraction:
  assumes "ds \<noteq> []" "list_all is_digit ds" "list_all is_digit fs"
  shows "float_number (ds @ CHR ''.'' # fs)
           = Some (of_nat (digits_value ds) + of_nat (digits_value fs) / 10 ^ length fs)"
proof -
  from digits_no_dot [OF assms(2)]
  have tw: "takeWhile (\<lambda>c. c \<noteq> CHR ''.'') (ds @ CHR ''.'' # fs) = ds"
    and dw: "dropWhile (\<lambda>c. c \<noteq> CHR ''.'') (ds @ CHR ''.'' # fs) = CHR ''.'' # fs"
    by (simp_all add: takeWhile_append2 dropWhile_append2)
  show ?thesis
  proof (cases "fs = []")
    case True
    then show ?thesis unfolding float_number_def Let_def tw dw
      by (simp add: digitpart_digits [OF assms(1,2)] digits_value_def)
  next
    case False
    then show ?thesis unfolding float_number_def Let_def tw dw
      using assms(1) by (simp add: digitpart_digits [OF assms(1,2)] digitpart_digits [OF False assms(3)])
  qed
qed

lemma float_literal_plain:
  assumes "\<forall>c\<in>set g. c \<noteq> CHR ''e'' \<and> c \<noteq> CHR ''E''"
  shows "float_literal g = float_number g"
proof -
  from assms
  have tw: "takeWhile (\<lambda>c. c \<noteq> CHR ''e'' \<and> c \<noteq> CHR ''E'') g = g"
    and dw: "dropWhile (\<lambda>c. c \<noteq> CHR ''e'' \<and> c \<noteq> CHR ''E'') g = []"
    by simp_all
  show ?thesis unfolding float_literal_def Let_def tw dw by simp
qed

lemma lower_char_digit: "is_digit c \<Longrightarrow> lower_char c = c"
  by (auto simp: lower_char_def is_digit_def Let_def)

lemma abs_float_value_number:
  assumes "g \<noteq> []" "is_digit (hd g)"
  shows "abs_float_value g = map_option fl_round (float_literal g)"
proof -
  from assms obtain d r where g: "g = d # r" and d: "is_digit d" by (cases g) auto
  from d have "lower_char d \<noteq> CHR ''i''" "lower_char d \<noteq> CHR ''n''"
    by (auto simp: lower_char_digit is_digit_def)
  then show ?thesis unfolding abs_float_value_def Let_def g by simp
qed

lemma match_unsigned_value:
  assumes "match_unsigned r = Some g"
  shows "abs_float_value g = Some (fl_round (unsigned_value r))"
    and "g \<noteq> []" and "is_digit (hd g)" and "is_digit (last g) \<or> last g = CHR ''.''"
proof -
  define ds where "ds = takeWhile is_digit r"
  from assms have ds: "ds \<noteq> []"
    by (auto simp: match_unsigned_def Let_def ds_def split: if_splits)
  have digs: "list_all is_digit ds" unfolding ds_def by (rule takeWhile_all_digits)
  have hd_ds: "is_digit (hd ds)" using ds digs by (cases ds) simp_all
  have all: "float_literal g = Some (unsigned_value r) \<and> g \<noteq> [] \<and> is_digit (hd g)
      \<and> (is_digit (last g) \<or> last g = CHR ''.'')"
  proof (cases "dropWhile is_digit r")
    case Nil
    from assms ds have g: "g = ds"
      unfolding match_unsigned_def Let_def Nil ds_def by (simp split: if_splits)
    have "unsigned_value r = of_nat (digits_value ds)"
      unfolding unsigned_value_def fraction_digits_def Nil ds_def by (simp add: digits_value_def)
    with g ds hd_ds float_number_digits [OF ds digs] last_digits [OF ds digs]
      float_literal_plain [OF digits_no_e [OF digs]]
    show ?thesis by simp
  next
    case (Cons c v)
    show ?thesis
    proof (cases "c = CHR ''.''")
      case True
      let ?fs = "takeWhile is_digit v"
      from assms ds True have g: "g = ds @ CHR ''.'' # ?fs"
        unfolding match_unsigned_def Let_def Cons ds_def by (simp split: if_splits)
      have uv: "unsigned_value r = of_nat (digits_value ds)
          + of_nat (digits_value ?fs) / 10 ^ length ?fs"
        unfolding unsigned_value_def fraction_digits_def Cons ds_def using True by simp
      have lst: "is_digit (last g) \<or> last g = CHR ''.''"
      proof (cases "?fs = []")
        case True
        with g show ?thesis by simp
      next
        case False
        from last_digits [OF False takeWhile_all_digits] g False show ?thesis by simp
      qed
      have "\<forall>c\<in>set g. c \<noteq> CHR ''e'' \<and> c \<noteq> CHR ''E''"
        using digits_no_e [OF digs] digits_no_e [OF takeWhile_all_digits, of v] g by auto
      from float_literal_plain [OF this] g ds hd_ds uv lst
        float_number_fraction [OF ds digs takeWhile_all_digits, of v]
      show ?thesis by simp
    next
      case False
      from assms ds False have g: "g = ds"
        unfolding match_unsigned_def Let_def Cons ds_def by (simp split: if_splits)
      have "unsigned_value r = of_nat (digits_value ds)"
        unfolding unsigned_value_def fraction_digits_def Cons ds_def using False
        by (simp add: digits_value_def)
      with g ds hd_ds float_number_digits [OF ds digs] last_digits [OF ds digs]
        float_literal_plain [OF digits_no_e [OF digs]]
      show ?thesis by simp
    qed
  qed
  from all show "g \<noteq> []" by simp
  from all show "is_digit (hd g)" by simp
  from all show "is_digit (last g) \<or> last g = CHR ''.''" by simp
  from all abs_float_value_number [of g]
  show "abs_float_value g = Some (fl_round (unsigned_value r))" by simp
qed

lemma match_number_value:
  assumes "match_number t = Some g"
  shows "py_float g = Some (fl_round (decimal_value t))"
proof (cases t)
  case Nil
  with assms show ?thesis by (simp add: match_number_def)
next
  case (Cons c u)
  show ?thesis
  proof (cases "c = CHR ''-''")
    case True
    with assms Cons obtain h where h: "match_unsigned u = Some h" and g: "g = CHR ''-'' # h"
      by (auto simp: match_number_def)
    note v = match_unsigned_value [OF h]
    have "\<not> is_space (last g)"
      using v(2,4) g by (auto dest: digit_not_space simp: is_space_def)
    moreover have "\<not> is_space (hd g)" using g by (simp add: is_space_def)
    ultimately have "strip g = g" using g by (intro strip_fixed) simp_all
    then have "py_float g = map_option fl_neg (abs_float_value h)"
      using g by (simp add: py_float_def)
    with v(1) True Cons show ?thesis by (simp add: decimal_value_def fl_neg_round)
  next
    case False
    with assms Cons have h: "match_unsigned t = Some g"
      by (simp add: match_number_def)
    note v = match_unsigned_value [OF h]
    have "\<not> is_space (last g)"
      using v(2,4) by (auto dest: digit_not_space simp: is_space_def)
    moreover have "\<not> is_space (hd g)" using v(3) by (rule digit_not_space)
    ultimately have s: "strip g = g" using v(2) by (intro strip_fixed) simp_all
    obtain d ds where gd: "g = d # ds" using v(2) by (cases g) auto
    with v(3) have "d \<noteq> CHR ''-''" "d \<noteq> CHR ''+''" by auto
    with s gd have "py_float g = abs_float_value g" by (simp add: py_float_def)
    with v(1) False Cons show ?thesis by (simp add: decimal_value_def)
  qed
qed

lemma search_param_None:
  "search_param letter s = None \<longleftrightarrow> (\<forall>i. \<not> param_at letter s i)"
proof (induction s)
  case Nil
  show ?case by (simp add: param_at_def)
next
  case (Cons c cs)
  have shift: "\<And>i. param_at letter (c # cs) (Suc i) = param_at letter cs i"
    by (simp add: param_at_def)
  have zero: "param_at letter (c # cs) 0 = (c = letter \<and> starts_number cs)"
    by (simp add: param_at_def)
  have all: "(\<forall>i. \<not> param_at letter (c # cs) i)
      \<longleftrightarrow> \<not> param_at letter (c # cs) 0 \<and> (\<forall>i. \<not> param_at letter cs i)"
    by (metis shift not0_implies_Suc)
  have some: "starts_number cs \<longleftrightarrow> (\<exists>g. match_number cs = Some g)"
    using match_number_None [of cs] by auto
  show ?case
    unfolding all zero using Cons.IH some
    by (cases "match_number cs") auto
qed

lemma search_param_first:
  assumes "param_at letter s i" and "\<forall>j<i. \<not> param_at letter s j"
  shows "search_param letter s = match_number (drop (Suc i) s)"
  using assms
proof (induction s arbitrary: i)
  case Nil
  then show ?case by (simp add: param_at_def)
next
  case (Cons c cs)
  have shift: "\<And>k. param_at letter (c # cs) (Suc k) = param_at letter cs k"
    by (simp add: param_at_def)
  have zero: "param_at letter (c # cs) 0 = (c = letter \<and> starts_number cs)"
    by (simp add: param_at_def)
  show ?case
  proof (cases i)
    case 0
    with Cons.prems(1) zero have "c = letter" "starts_number cs" by simp_all
    then obtain g where "match_number cs = Some g"
      using match_number_None [of cs] by auto
    with \<open>c = letter\<close> 0 show ?thesis by simp
  next
    case (Suc k)
    from Cons.prems(2) Suc have no0: "\<not> param_at letter (c # cs) 0" by blast
    from Cons.prems(1) Suc shift have pk: "param_at letter cs k" by simp
    from Cons.prems(2) Suc shift have "\<forall>j<k. \<not> param_at letter cs j"
      by (metis Suc_less_eq)
    from Cons.IH [OF pk this] have ih: "search_param letter cs = match_number (drop (Suc k) cs)" .
    from no0 zero have "c \<noteq> letter \<or> match_number cs = None"
      by (simp add: match_number_None)
    then show ?thesis using ih Suc by auto
  qed
qed

text \<open>
  C7, as the specification words it, does not hold: in \<open>G1 X+5\<close> the letter X is
  followed by a sign and a decimal number, so the lookup in these words gives 5, and
  \<open>get_param\<close> gives no value, because the pattern of the code takes a minus sign only.
  (It also wants a digit first: \<open>X.5\<close> is no occurrence for it.)
\<close>

theorem get_param_plus_sign_unmatched:
  "worded_param_at CHR ''X'' (stripped (raw (new_command ''G1 X+5''))) 3
   \<and> worded_lookup CHR ''X'' (stripped (raw (new_command ''G1 X+5''))) = Some (Finite 5)
   \<and> get_param (new_command ''G1 X+5'') CHR ''X'' = None"
  by code_simp

text \<open>
  C7, amended: for a parameter letter, lookup in the normalized line returns no value
  when the line has no occurrence of the letter followed by an optional minus sign and a
  decimal number that starts with a digit, and otherwise the value, as a float, of the
  number at the first such occurrence.
\<close>

theorem get_param_first_occurrence:
  assumes "is_alpha letter"
  shows "((\<forall>i. \<not> param_at letter (stripped (raw cmd)) i) \<longrightarrow> get_param cmd letter = None)
    \<and> (\<forall>i. param_at letter (stripped (raw cmd)) i
             \<and> (\<forall>j<i. \<not> param_at letter (stripped (raw cmd)) j)
          \<longrightarrow> get_param cmd letter
                = Some (fl_round (decimal_value (drop (Suc i) (stripped (raw cmd))))))"
proof (intro conjI allI impI)
  assume "\<forall>i. \<not> param_at letter (stripped (raw cmd)) i"
  then show "get_param cmd letter = None"
    by (simp add: get_param_def search_param_None [THEN iffD2])
next
  fix i
  assume h: "param_at letter (stripped (raw cmd)) i
             \<and> (\<forall>j<i. \<not> param_at letter (stripped (raw cmd)) j)"
  then have s: "search_param letter (stripped (raw cmd))
                  = match_number (drop (Suc i) (stripped (raw cmd)))"
    using search_param_first by blast
  from h have "starts_number (drop (Suc i) (stripped (raw cmd)))"
    by (simp add: param_at_def)
  then obtain g where g: "match_number (drop (Suc i) (stripped (raw cmd))) = Some g"
    using match_number_None [of "drop (Suc i) (stripped (raw cmd))"] by auto
  from match_number_value [OF g] s g
  show "get_param cmd letter
          = Some (fl_round (decimal_value (drop (Suc i) (stripped (raw cmd)))))"
    by (simp add: get_param_def)
qed

theorem get_param_first_occurrence_witness:
  "is_alpha CHR ''X''
   \<and> param_at CHR ''X'' (stripped (raw (new_command ''g1 x-12.50 y3''))) 3
   \<and> get_param (new_command ''g1 x-12.50 y3'') CHR ''X'' = Some (Finite (- (25 / 2)))"
proof -
  have a: "is_alpha CHR ''X''" by (simp add: is_alpha_def)
  have s: "stripped (raw (new_command ''g1 x-12.50 y3'')) = ''G1 X-12.50 Y3''"
    by code_simp
  have p: "param_at CHR ''X'' ''G1 X-12.50 Y3'' 3"
    by (simp add: param_at_def starts_number_def is_digit_def)
  have n: "\<forall>j<3. \<not> param_at CHR ''X'' ''G1 X-12.50 Y3'' j"
    by (simp add: param_at_def less_Suc_eq numeral_3_eq_3)
  have v: "decimal_value (drop (Suc 3) ''G1 X-12.50 Y3'') = - (25 / 2)"
    by (simp add: decimal_value_def unsigned_value_def fraction_digits_def digits_value_def
        digit_value_def is_digit_def)
  have r: "fl_round (- (25 / 2)) = Finite (- (25 / 2))" by code_simp
  from get_param_first_occurrence [OF a, of "new_command ''g1 x-12.50 y3''"] p n v r
  have "get_param (new_command ''g1 x-12.50 y3'') CHR ''X'' = Some (Finite (- (25 / 2)))"
    unfolding s by metis
  with a p s show ?thesis by simp
qed
section \<open>Toolpath and bounds\<close>

lemma last_param_Cons:
  "last_param d letter (c # p)
     = last_param (case get_param c letter of Some v \<Rightarrow> v | None \<Rightarrow> d) letter p"
  by (cases "get_param c letter"; cases "rev (List.map_filter (\<lambda>c. get_param c letter) p)")
     (simp_all add: last_param_def map_filter_simps)

lemma last_param_Nil: "last_param d letter [] = d"
  by (simp add: last_param_def map_filter_simps)

lemma indexed_Cons:
  "map g (filter P [0..<Suc n])
     = (if P 0 then [g 0] else []) @ map (\<lambda>j. g (Suc j)) (filter (\<lambda>j. P (Suc j)) [0..<n])"
proof -
  have "[0..<Suc n] = 0 # map Suc [0..<n]"
    by (simp add: upt_conv_Cons map_Suc_upt del: upt_Suc)
  then show ?thesis by (simp add: filter_map comp_def del: upt_Suc)
qed

lemma motion_indexed_Cons:
  "map g (motion_indices (c # cs))
     = (if is_movement c then [g 0] else []) @ map (\<lambda>j. g (Suc j)) (motion_indices cs)"
  using indexed_Cons [of g "\<lambda>j. is_movement ((c # cs) ! j)" "length cs"]
  by (simp add: motion_indices_def del: upt_Suc)

lemma laser_enabled_iff:
  "laser_enabled cs j \<longleftrightarrow>
     (\<exists>i\<le>j. is_laser_on (cs ! i) \<and> (\<forall>k. i < k \<and> k \<le> j \<longrightarrow> \<not> is_laser_off (cs ! k)))"
  unfolding laser_enabled_def list_ex_iff list_all_iff set_upt
  by (auto simp: less_Suc_eq_le Suc_le_eq)

lemma laser_from_False: "laser_from False cs j = laser_enabled cs j"
  by (simp add: laser_from_def)

lemma laser_from_0:
  "laser_from on0 (c # cs) 0
     = (if is_laser_on c then True else if is_laser_off c then False else on0)"
  by (auto simp: laser_from_def laser_enabled_iff)

lemma all_le_Suc_Cons: "(\<forall>k\<le>Suc j. P ((c # cs) ! k)) \<longleftrightarrow> P c \<and> (\<forall>k\<le>j. P (cs ! k))"
proof
  assume h: "\<forall>k\<le>Suc j. P ((c # cs) ! k)"
  have "P c" using h [rule_format, of 0] by simp
  moreover have "\<forall>k\<le>j. P (cs ! k)"
  proof (intro allI impI)
    fix k assume "k \<le> j"
    then show "P (cs ! k)" using h [rule_format, of "Suc k"] by simp
  qed
  ultimately show "P c \<and> (\<forall>k\<le>j. P (cs ! k))" by simp
next
  assume h: "P c \<and> (\<forall>k\<le>j. P (cs ! k))"
  show "\<forall>k\<le>Suc j. P ((c # cs) ! k)"
  proof (intro allI impI)
    fix k assume "k \<le> Suc j"
    then show "P ((c # cs) ! k)" using h by (cases k) auto
  qed
qed

lemma laser_enabled_Suc:
  "laser_enabled (c # cs) (Suc j)
     \<longleftrightarrow> laser_enabled cs j \<or> (is_laser_on c \<and> (\<forall>k\<le>j. \<not> is_laser_off (cs ! k)))"
proof
  assume "laser_enabled (c # cs) (Suc j)"
  then obtain i where i: "i \<le> Suc j" "is_laser_on ((c # cs) ! i)"
    "\<forall>k. i < k \<and> k \<le> Suc j \<longrightarrow> \<not> is_laser_off ((c # cs) ! k)"
    unfolding laser_enabled_iff by blast
  show "laser_enabled cs j \<or> (is_laser_on c \<and> (\<forall>k\<le>j. \<not> is_laser_off (cs ! k)))"
  proof (cases i)
    case 0
    have "\<forall>k\<le>j. \<not> is_laser_off (cs ! k)"
    proof (intro allI impI)
      fix k assume "k \<le> j"
      then show "\<not> is_laser_off (cs ! k)" using i(3) [rule_format, of "Suc k"] 0 by simp
    qed
    with i(2) 0 show ?thesis by simp
  next
    case (Suc i')
    have "\<forall>k. i' < k \<and> k \<le> j \<longrightarrow> \<not> is_laser_off (cs ! k)"
    proof (intro allI impI)
      fix k assume "i' < k \<and> k \<le> j"
      then show "\<not> is_laser_off (cs ! k)" using i(3) [rule_format, of "Suc k"] Suc by simp
    qed
    with i(1,2) Suc have "laser_enabled cs j" unfolding laser_enabled_iff by auto
    then show ?thesis by simp
  qed
next
  assume "laser_enabled cs j \<or> (is_laser_on c \<and> (\<forall>k\<le>j. \<not> is_laser_off (cs ! k)))"
  then show "laser_enabled (c # cs) (Suc j)"
  proof
    assume "laser_enabled cs j"
    then obtain i where i: "i \<le> j" "is_laser_on (cs ! i)"
      "\<forall>k. i < k \<and> k \<le> j \<longrightarrow> \<not> is_laser_off (cs ! k)"
      unfolding laser_enabled_iff by blast
    have "\<forall>k. Suc i < k \<and> k \<le> Suc j \<longrightarrow> \<not> is_laser_off ((c # cs) ! k)"
    proof (intro allI impI)
      fix k assume "Suc i < k \<and> k \<le> Suc j"
      then show "\<not> is_laser_off ((c # cs) ! k)" using i(3) by (cases k) auto
    qed
    with i(1,2) show ?thesis unfolding laser_enabled_iff
      by (intro exI [of _ "Suc i"]) simp
  next
    assume h: "is_laser_on c \<and> (\<forall>k\<le>j. \<not> is_laser_off (cs ! k))"
    have "\<forall>k. 0 < k \<and> k \<le> Suc j \<longrightarrow> \<not> is_laser_off ((c # cs) ! k)"
    proof (intro allI impI)
      fix k assume "0 < k \<and> k \<le> Suc j"
      then show "\<not> is_laser_off ((c # cs) ! k)" using h by (cases k) auto
    qed
    with h show ?thesis unfolding laser_enabled_iff
      by (intro exI [of _ 0]) simp
  qed
qed

lemma laser_from_Suc:
  "laser_from on0 (c # cs) (Suc j)
     = laser_from (if is_laser_on c then True else if is_laser_off c then False else on0) cs j"
proof -
  have a: "(\<forall>k\<le>Suc j. \<not> is_laser_off ((c # cs) ! k))
      \<longleftrightarrow> \<not> is_laser_off c \<and> (\<forall>k\<le>j. \<not> is_laser_off (cs ! k))"
    by (rule all_le_Suc_Cons)
  show ?thesis unfolding laser_from_def laser_enabled_Suc a by auto
qed


lemma toolpath_body_fields:
  "points (toolpath_body v c) = points v @
      (if is_movement c
       then [(case get_param c CHR ''X'' of Some nx \<Rightarrow> nx | None \<Rightarrow> pos_x v,
              case get_param c CHR ''Y'' of Some ny \<Rightarrow> ny | None \<Rightarrow> pos_y v,
              (if is_laser_on c then True else if is_laser_off c then False else laser_on v)
              \<or> positive_power c)]
       else [])"
  "pos_x (toolpath_body v c) = (case get_param c CHR ''X'' of Some nx \<Rightarrow> nx | None \<Rightarrow> pos_x v)"
  "pos_y (toolpath_body v c) = (case get_param c CHR ''Y'' of Some ny \<Rightarrow> ny | None \<Rightarrow> pos_y v)"
  "laser_on (toolpath_body v c)
     = (if is_laser_on c then True else if is_laser_off c then False else laser_on v)"
  by (simp_all add: toolpath_body_def Let_def positive_power_def)

lemma toolpath_fold:
  "points (foldl toolpath_body v cs) = points v @
     map (\<lambda>j. (last_param (pos_x v) CHR ''X'' (take (Suc j) cs),
               last_param (pos_y v) CHR ''Y'' (take (Suc j) cs),
               laser_from (laser_on v) cs j \<or> positive_power (cs ! j)))
       (motion_indices cs)"
proof (induction cs arbitrary: v)
  case Nil
  show ?case by (simp add: motion_indices_def)
next
  case (Cons c cs)
  show ?case
    unfolding foldl_Cons Cons.IH [of "toolpath_body v c"] motion_indexed_Cons
    by (simp add: toolpath_body_fields last_param_Cons last_param_Nil laser_from_0 laser_from_Suc)
qed

text \<open>
  C6: the toolpath has one tuple for each motion command, in program order; its
  coordinates are the position tracked over the whole program up to that command, and its
  flag is true exactly when the laser is enabled there (a line with M3 or M4 at or before
  the command, and no line with M5 after that line up to the command) or the command
  carries an S parameter greater than zero.
\<close>

theorem get_toolpath_per_motion_command:
  "get_toolpath f =
     map (\<lambda>j. (fst (position_at (commands f) j), snd (position_at (commands f) j),
               laser_enabled (commands f) j \<or> positive_power (commands f ! j)))
       (motion_indices (commands f))"
  by (simp add: get_toolpath_def toolpath_fold position_at_def laser_from_False)

subsection \<open>Bounds of a program with a coordinate beyond the float range\<close>

lemma halvings_lower: "2 ^ k \<le> m \<Longrightarrow> k \<le> halvings m"
proof (induction k arbitrary: m)
  case 0
  show ?case by simp
next
  case (Suc k)
  have "(1::rat) \<le> 2 ^ k" by simp
  then have "(2::rat) \<le> 2 ^ Suc k" by simp
  with Suc.prems have m: "\<not> m < 2" by linarith
  from Suc.prems have "2 ^ k \<le> m / 2" by simp
  from Suc.IH [OF this] have "k \<le> halvings (m / 2)" .
  moreover from m have "halvings m = Suc (halvings (m / 2))"
    by (subst halvings.simps) simp
  ultimately show ?case by simp
qed

lemma fl_round_overflow:
  assumes "2 ^ 1024 \<le> v"
  shows "fl_round v = PosInf"
proof -
  have p: "(0::rat) < 2 ^ 1024" by simp
  with assms have v: "0 < v" by linarith
  then have a: "\<bar>v\<bar> = v" by simp
  have "(1::rat) \<le> 2 ^ 1024" by simp
  with assms have one: "1 \<le> v" by linarith
  from halvings_lower [OF assms] have "1024 \<le> int (halvings v)" by simp
  with one have b: "1024 \<le> binary_exponent v"
    by (simp add: binary_exponent_def)
  then have e: "max (binary_exponent v) (- 1022) = binary_exponent v" by simp
  from v have n: "\<not> v < 0" by simp
  show ?thesis unfolding fl_round_def Let_def a e using b n by simp
qed

lemma digits_value_snoc: "digits_value (ds @ [c]) = 10 * digits_value ds + digit_value c"
  by (simp add: digits_value_def)

lemma digits_value_nines: "digits_value (replicate n CHR ''9'') + 1 = 10 ^ n"
proof (induction n)
  case 0
  show ?case by (simp add: digits_value_def)
next
  case (Suc n)
  have "replicate (Suc n) CHR ''9'' = replicate n CHR ''9'' @ [CHR ''9'']"
    by (simp add: replicate_append_same)
  then have "digits_value (replicate (Suc n) CHR ''9'') + 1
      = 10 * digits_value (replicate n CHR ''9'') + 10"
    by (simp add: digits_value_snoc digit_value_def)
  also have "\<dots> = 10 * (digits_value (replicate n CHR ''9'') + 1)" by simp
  finally show ?case using Suc.IH by simp
qed

lemma py_float_nines:
  assumes "0 < n"
  shows "py_float (replicate n CHR ''9'') = Some (fl_round (10 ^ n - 1))"
proof -
  let ?ds = "replicate n CHR ''9''"
  have nine: "is_digit CHR ''9''" by (simp add: is_digit_def)
  from assms have ne: "?ds \<noteq> []" by simp
  have digs: "list_all is_digit ?ds" using nine by (simp add: list_all_iff)
  from assms have hd9: "hd ?ds = CHR ''9''" by (cases n) simp_all
  from assms have last9: "last ?ds = CHR ''9''" by (cases n) simp_all
  have s: "strip ?ds = ?ds"
    using ne hd9 last9 digit_not_space [OF nine] by (intro strip_fixed) simp_all
  obtain r where r: "?ds = CHR ''9'' # r" using assms by (cases n) auto
  have "py_float ?ds = abs_float_value ?ds"
    unfolding py_float_def s unfolding r by simp
  also have "\<dots> = map_option fl_round (float_literal ?ds)"
    using ne hd9 nine by (intro abs_float_value_number) simp_all
  also have "float_literal ?ds = float_number ?ds"
    by (rule float_literal_plain [OF digits_no_e [OF digs]])
  also have "float_number ?ds = Some (of_nat (digits_value ?ds))"
    by (rule float_number_digits [OF ne digs])
  also have "(of_nat (digits_value ?ds) :: rat) = 10 ^ n - 1"
  proof -
    have "(of_nat (digits_value ?ds + 1) :: rat) = of_nat (10 ^ n)"
      by (simp only: digits_value_nines)
    then show ?thesis by simp
  qed
  finally show ?thesis by simp
qed

lemma long_x_overflow: "py_float (replicate 310 CHR ''9'') = Some PosInf"
proof -
  have "(2::rat) ^ 1024 \<le> 10 ^ 310 - 1" by simp
  from fl_round_overflow [OF this] py_float_nines [of 310] show ?thesis by simp
qed

lemma long_x_line_facts:
  "strip long_x_line = long_x_line"
  "stripped long_x_line = long_x_line"
  "long_x_line \<noteq> []"
  "search_param CHR ''X'' long_x_line = Some (replicate 310 CHR ''9'')"
  "search_param CHR ''Y'' long_x_line = None"
  "is_movement (new_command long_x_line)"
  "\<not> is_empty (new_command long_x_line)"
  by code_simp+

lemma long_x_params:
  "get_param (new_command long_x_line) CHR ''X'' = Some PosInf"
  "get_param (new_command long_x_line) CHR ''Y'' = None"
  by (simp_all add: get_param_def new_command_def long_x_line_facts long_x_overflow)

lemma long_x_commands: "commands long_x_program = [new_command long_x_line]"
  by (simp add: long_x_program_def from_lines_def long_x_line_facts)

text \<open>
  C5 fails for a program whose only motion command has an X parameter beyond the range
  of a float: \<open>float()\<close> gives infinity for it, so the end position of the command is
  (inf, 0) and its bounding box is (inf, 0, inf, 0); \<open>min_x\<close> is then still equal to the
  initial \<open>float("inf")\<close>, which \<open>get_bounds\<close> takes for a program without motion
  commands, and the result is (0, 0, 0, 0).
\<close>

theorem get_bounds_infinite_x:
  "motion_points (commands long_x_program) = [(PosInf, Finite 0)]
   \<and> get_bounds long_x_program = (Finite 0, Finite 0, Finite 0, Finite 0)"
proof -
  have "motion_indices [new_command long_x_line] = [0]"
    by (simp add: motion_indices_def long_x_line_facts)
  then have "motion_points [new_command long_x_line] = [(PosInf, Finite 0)]"
    by (simp add: motion_points_def position_at_def last_param_def map_filter_simps
        long_x_params)
  moreover have "get_bounds long_x_program = (Finite 0, Finite 0, Finite 0, Finite 0)"
    by (simp add: get_bounds_def long_x_commands bounds_body_def long_x_params
        long_x_line_facts Let_def py_min_def py_max_def fl_eq_def)
  ultimately show ?thesis by (simp add: long_x_commands)
qed
section \<open>Status reports\<close>

lemma status_report_scenario:
  "parse_status_report ''<Run|MPos:10.000,5.000,0.000|WCO:1.000,2.000,0.000>'' new_controller
     = Returned (new_controller\<lparr>machine_status := RUN, machine_x := Finite 10,
         machine_y := Finite 5, machine_z := Finite 0, work_x := Finite 9, work_y := Finite 3,
         trace := [Status_set RUN]\<rparr>)"
  by code_simp

text \<open>
  C4: a status report with WCO and without WPos sets the work position to the machine
  position minus WCO. The WCO branch assigns \<open>work_x\<close> and \<open>work_y\<close> only: on a new
  controller the report below, with machine z = 7 and offset z = 3, leaves \<open>work_z\<close> at 0
  where the difference is 4. The branches for MPos and WPos assign all three coordinates.
\<close>

theorem wco_report_leaves_work_z:
  "parse_status_report ''<Run|MPos:10.000,5.000,7.000|WCO:1.000,2.000,3.000>'' new_controller
     = Returned (new_controller\<lparr>machine_status := RUN, machine_x := Finite 10,
         machine_y := Finite 5, machine_z := Finite 7, work_x := Finite 9, work_y := Finite 3,
         work_z := Finite 0, trace := [Status_set RUN]\<rparr>)"
  by code_simp

section \<open>Acknowledgments without a command in flight\<close>

lemma mark_first_sent_none: "\<forall>c\<in>set cs. status c \<noteq> SENT \<Longrightarrow> mark_first_sent upd cs = cs"
  by (induction cs) auto

text \<open>
  C9: an \<open>ok\<close> or \<open>error:N\<close> handled while the inflight queue is empty and no command is
  in SENT state changes nothing but the acknowledgment signal: the program with every
  status and error code, the inflight queue, the cursor and the flags stay as they are.
\<close>

theorem stray_ack_dropped:
  assumes "buffer_fill s = []" and "\<forall>c\<in>set (commands_of s). status c \<noteq> SENT"
  shows "handle_ok s = s\<lparr>rx_event := rx_event s \<or> (gfile s \<noteq> None \<and> streaming s)\<rparr>
       \<and> handle_error code s = s\<lparr>rx_event := rx_event s \<or> (gfile s \<noteq> None \<and> streaming s)\<rparr>"
  using assms
  by (auto simp: handle_ok_def handle_error_def pop_buffer_fill_def commands_of_def
      mark_first_sent_none split: option.splits)

theorem stray_ack_dropped_witness:
  "buffer_fill (start_stream (connected_controller (from_lines [''G0 X10''])) ) = []
   \<and> handle_ok (start_stream (connected_controller (from_lines [''G0 X10''])))
       = (start_stream (connected_controller (from_lines [''G0 X10''])))\<lparr>rx_event := True\<rparr>
   \<and> handle_error 20 (start_stream (connected_controller (from_lines [''G0 X10''])))
       = (start_stream (connected_controller (from_lines [''G0 X10''])))\<lparr>rx_event := True\<rparr>"
proof -
  let ?s = "start_stream (connected_controller (from_lines [''G0 X10'']))"
  have b: "buffer_fill ?s = []" by code_simp
  have c: "\<forall>c\<in>set (commands_of ?s). status c \<noteq> SENT" by code_simp
  have r: "(rx_event ?s \<or> (gfile ?s \<noteq> None \<and> streaming ?s)) = True" by code_simp
  from stray_ack_dropped [OF b c, of 20] b show ?thesis unfolding r by simp
qed

section \<open>Starting and aborting a stream\<close>

text \<open>
  C10: \<open>start_stream\<close> called when no program is loaded, when the transport is not
  connected, or when a stream is in progress returns with the controller unchanged:
  nothing is written, no status is reset, the cursor, the inflight queue and the flags
  stay as they are, and no worker is started.
\<close>

theorem start_stream_noop:
  "gfile s = None \<or> \<not> is_connected s \<or> streaming s \<Longrightarrow> start_stream s = s"
  by (auto simp: start_stream_def split: option.splits)

theorem start_stream_noop_witness:
  "streaming (start_stream (connected_controller (from_lines [''G0 X10''])))
   \<and> start_stream (start_stream (connected_controller (from_lines [''G0 X10''])))
       = start_stream (connected_controller (from_lines [''G0 X10'']))"
proof -
  have h: "streaming (start_stream (connected_controller (from_lines [''G0 X10''])))"
    by code_simp
  then show ?thesis
    using start_stream_noop [of "start_stream (connected_controller (from_lines [''G0 X10'']))"]
    by simp
qed

text \<open>
  C8: on a connected controller whose link works, \<open>abort_stream\<close> performs in this order:
  the abort flag is set, the streaming flag is cleared, the soft-reset byte 0x18 is written,
  the streaming flag is cleared again, the inflight queue is cleared, the status is set to
  IDLE, the caller sleeps 500 ms, and the lines \<open>M5\<close> and \<open>G0 X0 Y0\<close> are written with
  their line feeds. The two lines are plain writes: the program, the cursor and the
  inflight queue are not touched by them.
\<close>

theorem abort_stream_sequence:
  assumes "port s = Some p" and "is_open p" and "\<not> write_fails p"
  shows "\<exists>s'. abort_stream s = Returned s'
      \<and> trace s' = trace s @
          [Assign_abort_flag True, Assign_streaming False, Port_write [CHR 0x18],
           Assign_streaming False, Buffer_fill_clear, Status_set IDLE, Sleep_ms 500,
           Port_write (''M5'' @ [CHR 0x0A]), Port_write (''G0 X0 Y0'' @ [CHR 0x0A])]
      \<and> abort_flag s' \<and> \<not> streaming s' \<and> buffer_fill s' = [] \<and> machine_status s' = IDLE
      \<and> gfile s' = gfile s \<and> cmd_index s' = cmd_index s"
  using assms
  by (simp add: abort_stream_def soft_reset_def send_realtime_def send_command_def
      port_write_def is_connected_def assign_abort_flag_def assign_streaming_def
      clear_buffer_fill_def set_status_def sleep_ms_def record_action_def
      strip_def is_space_def)

theorem abort_stream_sequence_witness:
  "\<exists>s'. abort_stream (start_stream (connected_controller (from_lines [''G0 X10''])))
           = Returned s'
      \<and> trace s' =
          [Buffer_fill_clear, Buffer_fill_clear, Assign_streaming True, Assign_abort_flag False,
           Assign_abort_flag True, Assign_streaming False, Port_write [CHR 0x18],
           Assign_streaming False, Buffer_fill_clear, Status_set IDLE, Sleep_ms 500,
           Port_write (''M5'' @ [CHR 0x0A]), Port_write (''G0 X0 Y0'' @ [CHR 0x0A])]
      \<and> abort_flag s' \<and> \<not> streaming s' \<and> buffer_fill s' = []"
proof -
  let ?s = "start_stream (connected_controller (from_lines [''G0 X10'']))"
  have p: "port ?s = Some \<lparr>is_open = True, write_fails = False\<rparr>" by code_simp
  have t: "trace ?s = [Buffer_fill_clear, Buffer_fill_clear, Assign_streaming True,
                       Assign_abort_flag False]" by code_simp
  from abort_stream_sequence [OF p] show ?thesis unfolding t by auto
qed

section \<open>Flow control during a streaming run\<close>











lemma and_then_Returned:
  "state_of (and_then r (\<lambda>t. Returned (g t)))
     = (case r of Returned t \<Rightarrow> g t | Raised e t \<Rightarrow> t)"
  by (cases r) simp_all






















section \<open>Acknowledgments during a streaming run\<close>

text \<open>
  C2 fails in a run in which the reply to a line is handled between the append of its
  cost and the assignment of SENT, which the TX worker does after it has released the
  lock. In \<open>early_ack_run\<close> on the program of two lines the first line is written (it is
  the only write) and its \<open>ok\<close> is handled while the command is still QUEUED: the handler
  pops the entry of the command and marks nothing. Then the command is marked SENT with
  an empty inflight queue. An acknowledgment handled in that state meets a streaming run
  with a command in SENT state; it marks the command OK, and there is no head of the
  queue for it to pop. In \<open>both_lines_run\<close> the second line is sent next and
  acknowledged: both lines are written in program order and each is answered once, the
  second \<open>ok\<close> marks the first command, and the second command stays SENT with nothing
  in flight.
\<close>

theorem ack_before_sent_mark:
  "sent_order early_ack_run (start_stream (connected_controller two_line_program)) = [0]
   \<and> matched_acks early_ack_run (start_stream (connected_controller two_line_program)) = 0
   \<and> map status (commands_of
        (exec early_ack_run (start_stream (connected_controller two_line_program))))
       = [SENT, QUEUED]
   \<and> ack_matches (exec early_ack_run (start_stream (connected_controller two_line_program)))
   \<and> buffer_fill (exec early_ack_run (start_stream (connected_controller two_line_program)))
       = []
   \<and> map status (commands_of
        (step Rx_ok (exec early_ack_run (start_stream (connected_controller two_line_program)))))
       = [OK, QUEUED]
   \<and> buffer_fill
        (step Rx_ok (exec early_ack_run (start_stream (connected_controller two_line_program))))
       = []
   \<and> sent_order both_lines_run (start_stream (connected_controller two_line_program)) = [0, 1]
   \<and> map status (commands_of
        (exec both_lines_run (start_stream (connected_controller two_line_program))))
       = [OK, SENT]
   \<and> buffer_fill (exec both_lines_run (start_stream (connected_controller two_line_program)))
       = []"
proof -
  let ?s = "start_stream (connected_controller two_line_program)"
  have 1: "sent_order early_ack_run ?s = [0]" by code_simp
  have 2: "matched_acks early_ack_run ?s = 0" by code_simp
  have 3: "map status (commands_of (exec early_ack_run ?s)) = [SENT, QUEUED]" by code_simp
  have 4: "ack_matches (exec early_ack_run ?s)" by code_simp
  have 5: "buffer_fill (exec early_ack_run ?s) = []" by code_simp
  have 6: "map status (commands_of (step Rx_ok (exec early_ack_run ?s))) = [OK, QUEUED]"
    by code_simp
  have 7: "buffer_fill (step Rx_ok (exec early_ack_run ?s)) = []" by code_simp
  have 8: "sent_order both_lines_run ?s = [0, 1]" by code_simp
  have 9: "map status (commands_of (exec both_lines_run ?s)) = [OK, SENT]" by code_simp
  have 10: "buffer_fill (exec both_lines_run ?s) = []" by code_simp
  from 1 2 3 4 5 6 7 8 9 10 show ?thesis by blast
qed
end
